theory Spec2Isabelle
  imports Main
begin

section \<open>JavaScript strings\<close>

text \<open>
  A JavaScript string is modelled as a \<^typ>\<open>string\<close>: the list of its code units, each
  below 256. \<open>String.length\<close> is \<^const>\<open>length\<close>. Strings holding code units from 256
  upwards are outside the model.
\<close>

definition js_space :: "char \<Rightarrow> bool" where
  \<comment> \<open>the white space and line terminators that \<open>String.prototype.trim\<close> strips, among the
      code units below 256: TAB, LF, VT, FF, CR, SP, NBSP\<close>
  "js_space c = (c = CHR 0x09 \<or> c = CHR 0x0A \<or> c = CHR 0x0B \<or> c = CHR 0x0C \<or>
                 c = CHR 0x0D \<or> c = CHR 0x20 \<or> c = CHR 0xA0)"

definition trim :: "string \<Rightarrow> string" where
  "trim s = rev (dropWhile js_space (rev (dropWhile js_space s)))"

definition between :: "nat \<Rightarrow> nat \<Rightarrow> char \<Rightarrow> bool" where
  \<comment> \<open>the code unit lies in a range of code units\<close>
  "between lo hi c = (lo \<le> of_char c \<and> (of_char c :: nat) \<le> hi)"

fun set_bit5 :: "char \<Rightarrow> char" where
  \<comment> \<open>adds 32 to a code unit whose bit of weight 32 is clear\<close>
  "set_bit5 (Char b0 b1 b2 b3 b4 b5 b6 b7) = Char b0 b1 b2 b3 b4 True b6 b7"

fun clear_bit5 :: "char \<Rightarrow> char" where
  \<comment> \<open>takes 32 from a code unit whose bit of weight 32 is set\<close>
  "clear_bit5 (Char b0 b1 b2 b3 b4 b5 b6 b7) = Char b0 b1 b2 b3 b4 False b6 b7"

definition toLowerCase_char :: "char \<Rightarrow> char" where
  \<comment> \<open>\<open>A\<close>-\<open>Z\<close> and the Latin-1 capitals \<open>0xC0\<close>-\<open>0xDE\<close> (but the sign \<open>0xD7\<close>) move up by 32\<close>
  "toLowerCase_char c =
     (if between 65 90 c \<or> (between 192 222 c \<and> c \<noteq> CHR 0xD7) then set_bit5 c else c)"

definition toLowerCase :: "string \<Rightarrow> string" where
  "toLowerCase s = map toLowerCase_char s"

definition canonicalize :: "bool \<Rightarrow> char \<Rightarrow> char" where
  \<comment> \<open>the comparison key of a regular expression without the \<open>u\<close> flag: with the \<open>i\<close> flag
      the letters \<open>a\<close>-\<open>z\<close> go to \<open>A\<close>-\<open>Z\<close>. The code units from 128 upwards are left
      alone: none of them has the key of an ASCII character, and every pattern character
      of this program is ASCII.\<close>
  "canonicalize ic c = (if ic \<and> between 97 122 c then clear_bit5 c else c)"

fun join :: "string \<Rightarrow> string list \<Rightarrow> string" where
  \<comment> \<open>\<open>Array.prototype.join\<close> on an array of strings\<close>
  "join sep [] = []"
| "join sep [x] = x"
| "join sep (x # y # ys) = x @ sep @ join sep (y # ys)"

definition startsWith :: "string \<Rightarrow> string \<Rightarrow> bool" where
  "startsWith s p = (take (length p) s = p)"

definition endsWith :: "string \<Rightarrow> string \<Rightarrow> bool" where
  "endsWith s p = (length p \<le> length s \<and> drop (length s - length p) s = p)"

function show_nat :: "nat \<Rightarrow> string" where
  \<comment> \<open>the decimal text of a non-negative integer, as a template literal prints it\<close>
  "show_nat n =
     (if n < 10 then [char_of (48 + n)] else show_nat (n div 10) @ [char_of (48 + n mod 10)])"
  by pat_completeness auto
termination
  by (relation "measure id") auto

declare show_nat.simps [simp del]

section \<open>Regular expressions\<close>

text \<open>
  The regular expressions of the program use literals, character classes, the dot,
  alternation, the optional item and bounded repetition. \<open>rx_rems\<close> gives every rest of
  the input that a match at its start can leave; \<open>rx_test\<close> is \<open>RegExp.prototype.test\<close> of
  a pattern without the \<open>g\<close> and \<open>y\<close> flags: some match starts somewhere in the input.
\<close>

datatype rx =
    Lit string          \<comment> \<open>a run of literal characters\<close>
  | Range char char     \<comment> \<open>\<open>[a-b]\<close>\<close>
  | OneOf string        \<comment> \<open>\<open>[abc]\<close>\<close>
  | Dot                 \<comment> \<open>\<open>.\<close>: any code unit but a line terminator\<close>
  | Seq rx rx
  | Alt rx rx
  | Opt rx              \<comment> \<open>\<open>r?\<close>\<close>
  | Rep nat nat rx      \<comment> \<open>\<open>r{lo,hi}\<close>\<close>

fun lit_rest :: "bool \<Rightarrow> string \<Rightarrow> string \<Rightarrow> string option" where
  "lit_rest ic [] s = Some s"
| "lit_rest ic (p # ps) [] = None"
| "lit_rest ic (p # ps) (c # cs) =
     (if canonicalize ic p = canonicalize ic c then lit_rest ic ps cs else None)"

definition in_range :: "bool \<Rightarrow> char \<Rightarrow> char \<Rightarrow> char \<Rightarrow> bool" where
  \<comment> \<open>\<open>[lo-hi]\<close> holds a character when it holds one with the same key: under the \<open>i\<close>
      flag that is the character itself, its capital or the small letter of its capital\<close>
  "in_range ic lo hi c =
     (if ic
      then between (of_char lo) (of_char hi) c \<or>
           between (of_char lo) (of_char hi) (canonicalize True c) \<or>
           between (of_char lo) (of_char hi) (toLowerCase_char (canonicalize True c))
      else between (of_char lo) (of_char hi) c)"

fun rep_rems :: "(string \<Rightarrow> string list) \<Rightarrow> nat \<Rightarrow> nat \<Rightarrow> string \<Rightarrow> string list" where
  "rep_rems f lo 0 s = (if lo = 0 then [s] else [])"
| "rep_rems f lo (Suc hi) s =
     concat (map (rep_rems f (lo - 1) hi) (f s)) @ (if lo = 0 then [s] else [])"

fun rx_rems :: "bool \<Rightarrow> rx \<Rightarrow> string \<Rightarrow> string list" where
  "rx_rems ic (Lit p) s = (case lit_rest ic p s of None \<Rightarrow> [] | Some r \<Rightarrow> [r])"
| "rx_rems ic (Range lo hi) s =
     (case s of [] \<Rightarrow> [] | c # cs \<Rightarrow> if in_range ic lo hi c then [cs] else [])"
| "rx_rems ic (OneOf cs') s =
     (case s of [] \<Rightarrow> []
      | c # cs \<Rightarrow> if canonicalize ic c \<in> set (map (canonicalize ic) cs') then [cs] else [])"
| "rx_rems ic Dot s =
     (case s of [] \<Rightarrow> [] | c # cs \<Rightarrow> if c = CHR 0x0A \<or> c = CHR 0x0D then [] else [cs])"
| "rx_rems ic (Seq r1 r2) s = concat (map (rx_rems ic r2) (rx_rems ic r1 s))"
| "rx_rems ic (Alt r1 r2) s = rx_rems ic r1 s @ rx_rems ic r2 s"
| "rx_rems ic (Opt r) s = rx_rems ic r s @ [s]"
| "rx_rems ic (Rep lo hi r) s = rep_rems (rx_rems ic r) lo hi s"

fun rx_test :: "bool \<Rightarrow> rx \<Rightarrow> string \<Rightarrow> bool" where
  "rx_test ic r [] = (rx_rems ic r [] \<noteq> [])"
| "rx_test ic r (c # cs) = (rx_rems ic r (c # cs) \<noteq> [] \<or> rx_test ic r cs)"

section \<open>The circular heuristic (client)\<close>

definition ref_code_rx :: rx where
  \<comment> \<open>\<open>/[A-Z]{2,4}\/\d{2,4}[-/]\d{2,4}/\<close>, with the comment "Matches patterns like RBI/2025/01"\<close>
  "ref_code_rx =
     Seq (Rep 2 4 (Range (CHR ''A'') (CHR ''Z''))) (Seq (Lit ''/'')
       (Seq (Rep 2 4 (Range (CHR ''0'') (CHR ''9''))) (Seq (OneOf ''-/'')
       (Rep 2 4 (Range (CHR ''0'') (CHR ''9''))))))"

definition circularIndicators :: "(bool \<times> rx) list" where
  \<comment> \<open>each pattern with its \<open>i\<close> flag; the last one has none\<close>
  "circularIndicators =
    [(True, Lit ''circular''),
     (True, Seq (Lit ''reference no'') (Opt (Lit ''.''))),
     (True, Alt (Lit ''rbi'') (Alt (Lit ''sebi'') (Alt (Lit ''irdai'') (Alt (Lit ''pfrda'')
              (Alt (Lit ''nbfc'') (Alt (Lit ''banking'') (Alt (Lit ''regulation'')
              (Lit ''compliance'')))))))),
     (True, Seq (Lit ''dear sir'') (Seq (Opt Dot) (Lit ''madam''))),
     (True, Alt (Lit ''all scheduled commercial banks'') (Alt (Lit ''all banks'')
              (Seq (Lit ''all nbfc'') (Opt (Lit ''s''))))),
     (True, Alt (Lit ''master circular'') (Alt (Lit ''master direction'')
              (Lit ''regulatory framework''))),
     (False, ref_code_rx)]"

definition isLikelyCircular :: "string \<Rightarrow> bool" where
  "isLikelyCircular text =
     (if text = [] then False
      else let sampleText = toLowerCase (take 2000 text)
           in list_ex (\<lambda>(ic, pattern). rx_test ic pattern sampleText) circularIndicators)"

section \<open>JSON values\<close>

text \<open>
  The values that \<open>JSON.parse\<close> returns and \<open>JSON.stringify\<close> prints. A number is kept as
  the text \<open>JSON.stringify\<close> prints for it (\<open>7\<close>, \<open>0.5\<close>), so zero is \<open>0\<close>. An object is
  the list of its members in insertion order.
\<close>

datatype json =
    JNull
  | JBool bool
  | JNum string
  | JStr string
  | JArr "json list"
  | JObj "(string \<times> json) list"

fun jprop :: "json \<Rightarrow> string \<Rightarrow> json option" where
  \<comment> \<open>\<open>v.k\<close> for the member names of this program: \<open>undefined\<close> (\<open>None\<close>) on a value that is
      no object; the last member of a name wins\<close>
  "jprop (JObj kvs) k = map_of (rev kvs) k"
| "jprop v k = None"

fun chain :: "json option \<Rightarrow> string \<Rightarrow> json option" where
  \<comment> \<open>\<open>v?.k\<close>: \<open>undefined\<close> on \<open>undefined\<close> and on \<open>null\<close>\<close>
  "chain None k = None"
| "chain (Some JNull) k = None"
| "chain (Some v) k = jprop v k"

fun truthy :: "json \<Rightarrow> bool" where
  "truthy JNull = False"
| "truthy (JBool b) = b"
| "truthy (JNum t) = (t \<noteq> ''0'')"
| "truthy (JStr s) = (s \<noteq> [])"
| "truthy (JArr xs) = True"
| "truthy (JObj kvs) = True"

fun truthy_opt :: "json option \<Rightarrow> bool" where
  "truthy_opt None = False"
| "truthy_opt (Some v) = truthy v"

fun js_String :: "json \<Rightarrow> string" where
  \<comment> \<open>\<open>String(v)\<close>\<close>
  "js_String JNull = ''null''"
| "js_String (JBool b) = (if b then ''true'' else ''false'')"
| "js_String (JNum t) = t"
| "js_String (JStr s) = s"
| "js_String (JArr xs) =
     join '','' (map (\<lambda>x. case x of JNull \<Rightarrow> [] | _ \<Rightarrow> js_String x) xs)"
| "js_String (JObj kvs) = ''[object Object]''"

definition hex_digit :: "nat \<Rightarrow> char" where
  "hex_digit n = ''0123456789abcdef'' ! (n mod 16)"

definition quote_char :: "char \<Rightarrow> string" where
  \<comment> \<open>one code unit inside a JSON string literal\<close>
  "quote_char c =
     (if c = CHR 0x22 then [CHR 0x5C, CHR 0x22]
      else if c = CHR 0x5C then [CHR 0x5C, CHR 0x5C]
      else if c = CHR 0x08 then [CHR 0x5C, CHR ''b'']
      else if c = CHR 0x09 then [CHR 0x5C, CHR ''t'']
      else if c = CHR 0x0A then [CHR 0x5C, CHR ''n'']
      else if c = CHR 0x0C then [CHR 0x5C, CHR ''f'']
      else if c = CHR 0x0D then [CHR 0x5C, CHR ''r'']
      else if between 0 31 c
        then [CHR 0x5C, CHR ''u'', CHR ''0'', CHR ''0'',
              hex_digit (of_char c div 16), hex_digit (of_char c)]
      else [c])"

definition quoteJSONString :: "string \<Rightarrow> string" where
  "quoteJSONString s = [CHR 0x22] @ concat (map quote_char s) @ [CHR 0x22]"

fun stringify :: "json \<Rightarrow> string" where
  \<comment> \<open>\<open>JSON.stringify(v)\<close> with no indentation\<close>
  "stringify JNull = ''null''"
| "stringify (JBool b) = (if b then ''true'' else ''false'')"
| "stringify (JNum t) = t"
| "stringify (JStr s) = quoteJSONString s"
| "stringify (JArr xs) = ''['' @ join '','' (map stringify xs) @ '']''"
| "stringify (JObj kvs) =
     ''{'' @ join '','' (map (\<lambda>(k, v). quoteJSONString k @ '':'' @ stringify v) kvs) @ ''}''"

record http_response =
  status :: nat
  body :: "json option"   \<comment> \<open>\<open>None\<close>: the body is no JSON text\<close>

definition res_json :: "nat \<Rightarrow> json \<Rightarrow> http_response" where
  \<comment> \<open>\<open>res.status(n).json(v)\<close>\<close>
  "res_json n v = \<lparr>status = n, body = Some v\<rparr>"

definition res_ok :: "http_response \<Rightarrow> bool" where
  \<comment> \<open>\<open>Response.ok\<close>\<close>
  "res_ok r = (200 \<le> status r \<and> status r \<le> 299)"

section \<open>The backend proxy: \<open>POST /api/openai/chat\<close>\<close>

record api_error =
  e_status :: "nat option"           \<comment> \<open>\<open>e.status\<close>, a number when present\<close>
  e_code :: "string option"          \<comment> \<open>\<open>e.code\<close>, a string when present\<close>
  e_message :: string                \<comment> \<open>\<open>e.message\<close>; absent and empty behave alike\<close>
  e_error_message :: "string option" \<comment> \<open>\<open>e.error?.message\<close>\<close>

record completion =
  c_message :: "json option"   \<comment> \<open>\<open>completion.choices?.[0]?.message\<close>\<close>
  c_usage :: "json option"
  c_id :: "json option"

datatype js_prim = PUndefined | PNum nat | PStr string

definition status_or_code :: "api_error \<Rightarrow> js_prim" where
  \<comment> \<open>\<open>e.status || e.code\<close>\<close>
  "status_or_code e =
     (case e_status e of
        Some n \<Rightarrow> if n \<noteq> 0 then PNum n
                  else (case e_code e of Some c \<Rightarrow> PStr c | None \<Rightarrow> PUndefined)
      | None \<Rightarrow> (case e_code e of Some c \<Rightarrow> PStr c | None \<Rightarrow> PUndefined))"

definition rate_limit_rx :: rx where
  "rate_limit_rx = Alt (Lit ''rate limit'') (Lit ''quota'')"

definition isRateLimit :: "api_error \<Rightarrow> bool" where
  "isRateLimit e = (status_or_code e = PNum 429 \<or> rx_test True rate_limit_rx (e_message e))"

definition delayMs :: "nat \<Rightarrow> nat" where
  "delayMs attempt = min (2000 * 2 ^ attempt) 8000"

datatype event =
    Call nat   \<comment> \<open>\<open>openai.chat.completions.create\<close> is called, at this value of \<open>attempt\<close>\<close>
  | Wait nat   \<comment> \<open>\<open>setTimeout\<close> is awaited for this many milliseconds\<close>

text \<open>
  The provider is the answer of each call, by the value of \<open>attempt\<close> at the call (the
  calls are made at \<open>attempt = 0, 1, ...\<close> in turn). The loop returns what it returns or
  throws, and the trace of its calls and waits.
\<close>

function retry_loop ::
  "(nat \<Rightarrow> api_error + completion) \<Rightarrow> nat \<Rightarrow> nat \<Rightarrow> api_error option \<Rightarrow> event list
     \<Rightarrow> (api_error + completion) \<times> event list" where
  "retry_loop provider maxRetries attempt lastErr trace =
     (if attempt \<le> maxRetries then
        (case provider attempt of
           Inr c \<Rightarrow> (Inr c, trace @ [Call attempt])
         | Inl e \<Rightarrow>
             if \<not> isRateLimit e \<or> attempt = maxRetries then (Inl e, trace @ [Call attempt])
             else retry_loop provider maxRetries (attempt + 1) (Some e)
                    (trace @ [Call attempt, Wait (delayMs attempt)]))
      else
        (case lastErr of
           Some e \<Rightarrow> (Inl e, trace)
         | None \<Rightarrow> (Inl \<lparr>e_status = None, e_code = None,
                         e_message = ''OpenAI request failed'', e_error_message = None\<rparr>, trace)))"
  by pat_completeness auto
termination
  by (relation "measure (\<lambda>(provider, maxRetries, attempt, lastErr, trace). Suc maxRetries - attempt)")
     auto

definition retryable :: "(nat \<Rightarrow> api_error + completion) \<Rightarrow> nat \<Rightarrow> bool" where
  \<comment> \<open>the call at this value of \<open>attempt\<close> fails with a rate-limit error\<close>
  "retryable prov a = (case prov a of Inl e \<Rightarrow> isRateLimit e | Inr c \<Rightarrow> False)"

definition retry_events :: "nat \<Rightarrow> nat \<Rightarrow> event list" where
  \<comment> \<open>the failed calls at \<open>attempt = a, ..., k - 1\<close>, each with the wait after it\<close>
  "retry_events a k = concat (map (\<lambda>i. [Call i, Wait (delayMs i)]) [a ..< k])"

definition callOpenAIWithRetry ::
  "(nat \<Rightarrow> api_error + completion) \<Rightarrow> nat \<Rightarrow> (api_error + completion) \<times> event list" where
  "callOpenAIWithRetry provider maxRetries = retry_loop provider maxRetries 0 None []"

subsection \<open>The development stub\<close>

definition circular_id_group :: "string \<Rightarrow> string option" where
  \<comment> \<open>the white space and the group of \<open>/Circular ID:\s*([^,\n]+)/i\<close>, at the start of the
      input: the group after the longest run of white space; when no group starts there
      the run gives characters back from its end, and the group is the last of them that
      is no line feed\<close>
  "circular_id_group s =
     (let ws = takeWhile js_space s;
          g = takeWhile (\<lambda>c. c \<noteq> CHR '','' \<and> c \<noteq> CHR 0x0A) (dropWhile js_space s)
      in if g \<noteq> [] then Some g
         else (case filter (\<lambda>c. c \<noteq> CHR 0x0A) ws of [] \<Rightarrow> None | w # ws' \<Rightarrow> Some [last (w # ws')]))"

fun circularIdMatch :: "string \<Rightarrow> string option" where
  \<comment> \<open>group 1 of the first match of that pattern\<close>
  "circularIdMatch [] = None"
| "circularIdMatch (c # cs) =
     (case lit_rest True ''Circular ID:'' (c # cs) of
        None \<Rightarrow> circularIdMatch cs
      | Some r \<Rightarrow> (case circular_id_group r of None \<Rightarrow> circularIdMatch cs | Some g \<Rightarrow> Some g))"

definition stubContent :: "string \<Rightarrow> string \<Rightarrow> string \<Rightarrow> string \<Rightarrow> json" where
  \<comment> \<open>the object literal, by its free variables \<open>circular_id\<close>, \<open>now\<close> and \<open>details\<close>. The
      one string of \<open>key_points\<close> holds code units above 255 in the source and is the
      parameter \<open>key_point\<close>.\<close>
  "stubContent key_point circular_id now details =
    JObj [
      (''meta'', JObj [
        (''regulator'', JStr ''RBI''),
        (''circular_id'', JStr circular_id),
        (''reference_no'', JStr ''DEV-STUB-ON-ERROR''),
        (''date'', JStr (take 10 now)),
        (''subject'', JStr (''Dev stub (OpenAI error): '' @ details)),
        (''bank_context'', JObj [
          (''bank_id'', JStr []),
          (''bank_name'', JStr []),
          (''bank_type'', JStr []),
          (''applicable'', JBool True),
          (''applicable_reason'', JStr ''Dev stub returned due to OpenAI error.'')])]),
      (''summary'', JStr ''Development fallback summary (stub on error).''),
      (''key_points'', JArr [JStr key_point]),
      (''actions'', JArr [
        JObj [
          (''title'', JStr ''Review circular and prepare compliance note''),
          (''description'', JStr ''Create a short note summarizing obligations and proposed steps.''),
          (''priority'', JStr ''Medium''),
          (''department'', JStr ''Compliance''),
          (''due_in_days'', JNum ''7''),
          (''owner_role'', JStr ''Maker''),
          (''confidence'', JNum ''0.5''),
          (''citation'', JStr ''N/A'')],
        JObj [
          (''title'', JStr ''Identify applicable sections for the default bank''),
          (''description'', JStr ''Map clauses to bank products/processes; mark not applicable items.''),
          (''priority'', JStr ''High''),
          (''department'', JStr ''Compliance''),
          (''due_in_days'', JNum ''5''),
          (''owner_role'', JStr ''Maker''),
          (''confidence'', JNum ''0.6''),
          (''citation'', JStr ''N/A'')],
        JObj [
          (''title'', JStr ''Draft implementation plan''),
          (''description'', JStr ''List owners, milestones, and dependencies for each obligation.''),
          (''priority'', JStr ''Medium''),
          (''department'', JStr ''Operations''),
          (''due_in_days'', JNum ''10''),
          (''owner_role'', JStr ''Maker''),
          (''confidence'', JNum ''0.6''),
          (''citation'', JStr ''N/A'')],
        JObj [
          (''title'', JStr ''Update internal SOPs/Policies''),
          (''description'', JStr ''Revise SOPs and policies impacted by this circular; route for approval.''),
          (''priority'', JStr ''Medium''),
          (''department'', JStr ''Policy''),
          (''due_in_days'', JNum ''14''),
          (''owner_role'', JStr ''Checker''),
          (''confidence'', JNum ''0.5''),
          (''citation'', JStr ''N/A'')],
        JObj [
          (''title'', JStr ''Train relevant staff''),
          (''description'', JStr ''Conduct short training for impacted teams with examples and timelines.''),
          (''priority'', JStr ''Low''),
          (''department'', JStr ''HR/Training''),
          (''due_in_days'', JNum ''15''),
          (''owner_role'', JStr ''Maker''),
          (''confidence'', JNum ''0.4''),
          (''citation'', JStr ''N/A'')],
        JObj [
          (''title'', JStr ''Set up compliance monitoring''),
          (''description'', JStr ''Define checks/alerts to monitor adherence and capture evidence.''),
          (''priority'', JStr ''High''),
          (''department'', JStr ''Compliance Monitoring''),
          (''due_in_days'', JNum ''12''),
          (''owner_role'', JStr ''Checker''),
          (''confidence'', JNum ''0.5''),
          (''citation'', JStr ''N/A'')]]),
      (''risks'', JArr [JStr ''Potential non-compliance if ignored (dev-stub).'']),
      (''notes'', JStr ''This payload is returned by the server when OpenAI fails in dev.'')]"

record chat_ctx =
  OPENAI_API_KEY :: "string option"      \<comment> \<open>\<open>process.env.OPENAI_API_KEY\<close>\<close>
  DEV_STUB_ON_ERROR :: "string option"   \<comment> \<open>\<open>process.env.DEV_STUB_ON_ERROR\<close>\<close>
  openai :: bool                         \<comment> \<open>the client object exists when the request arrives\<close>
  late_init_ok :: bool                   \<comment> \<open>\<open>new OpenAI(...)\<close> would return\<close>
  provider :: "nat \<Rightarrow> api_error + completion"
  now_iso :: string                      \<comment> \<open>\<open>new Date().toISOString()\<close>\<close>
  now_ms :: nat                          \<comment> \<open>\<open>Date.now()\<close>\<close>
  key_point :: string

definition userMsg_of :: "json option \<Rightarrow> json" where
  \<comment> \<open>the content of the first message of role \<open>user\<close>, or the empty string\<close>
  "userMsg_of req_body =
     (case chain req_body ''messages'' of
        Some (JArr ms) \<Rightarrow>
          (case chain (find (\<lambda>m. truthy m \<and> jprop m ''role'' = Some (JStr ''user'')) ms) ''content'' of
             Some v \<Rightarrow> if truthy v then v else JStr []
           | None \<Rightarrow> JStr [])
      | _ \<Rightarrow> JStr [])"

definition stub_response :: "chat_ctx \<Rightarrow> json option \<Rightarrow> string \<Rightarrow> http_response" where
  "stub_response ctx req_body details =
     (let userMsg = userMsg_of req_body;
          circular_id = (case circularIdMatch (js_String userMsg) of
                           Some g \<Rightarrow> trim g | None \<Rightarrow> ''unknown'')
      in res_json 200 (JObj [
           (''message'', JObj [
              (''role'', JStr ''assistant''),
              (''content'', JStr (stringify (stubContent (key_point ctx) circular_id (now_iso ctx) details)))]),
           (''usage'', JNull),
           (''id'', JStr (''stub-'' @ show_nat (now_ms ctx)))]))"

definition allowStub :: "chat_ctx \<Rightarrow> bool" where
  \<comment> \<open>\<open>String(process.env.DEV_STUB_ON_ERROR).toLowerCase() === 'true'\<close>\<close>
  "allowStub ctx =
     (toLowerCase (case DEV_STUB_ON_ERROR ctx of None \<Rightarrow> ''undefined'' | Some v \<Rightarrow> v) = ''true'')"

definition error_details :: "api_error \<Rightarrow> string" where
  \<comment> \<open>\<open>err.error?.message || err.message || 'OpenAI request failed'\<close>\<close>
  "error_details err =
     (case e_error_message err of
        Some m \<Rightarrow> if m \<noteq> [] then m
                  else if e_message err \<noteq> [] then e_message err
                  else ''OpenAI request failed''
      | None \<Rightarrow> if e_message err \<noteq> [] then e_message err
                else ''OpenAI request failed'')"

definition chat_catch :: "chat_ctx \<Rightarrow> json option \<Rightarrow> api_error \<Rightarrow> http_response" where
  \<comment> \<open>the \<open>catch\<close> block of the handler\<close>
  "chat_catch ctx req_body err =
     (let details = error_details err;
          st = (case e_status err of Some n \<Rightarrow> if n \<noteq> 0 then n else 500 | None \<Rightarrow> 500)
      in if allowStub ctx then stub_response ctx req_body details
         else res_json st (JObj [(''error'', JStr details)]))"

definition chat_success :: "completion \<Rightarrow> http_response" where
  \<comment> \<open>\<open>res.json({ message: choice, usage: completion.usage || null, id: completion.id })\<close>; a
      member whose value is \<open>undefined\<close> is not printed\<close>
  "chat_success c =
     res_json 200 (JObj (
       (case c_message c of Some m \<Rightarrow> [(''message'', m)] | None \<Rightarrow> []) @
       [(''usage'', (case c_usage c of Some u \<Rightarrow> if truthy u then u else JNull | None \<Rightarrow> JNull))] @
       (case c_id c of Some i \<Rightarrow> [(''id'', i)] | None \<Rightarrow> [])))"

definition chat_handler :: "chat_ctx \<Rightarrow> json option \<Rightarrow> http_response \<times> event list" where
  "chat_handler ctx req_body =
     (if OPENAI_API_KEY ctx = None \<or> OPENAI_API_KEY ctx = Some [] then
        (res_json 400 (JObj [
           (''error'', JStr ''OpenAI API key is not configured''),
           (''message'', JStr ''Please set the OPENAI_API_KEY environment variable in your .env file'')]), [])
      else
        let client = (openai ctx \<or> late_init_ok ctx) in
        (case chain req_body ''messages'' of
           Some (JArr (m # ms)) \<Rightarrow>
             if \<not> client then
               (res_json 500 (JObj [(''error'', JStr ''OpenAI client not initialized'')]), [])
             else
               (case callOpenAIWithRetry (provider ctx) 2 of
                  (Inr c, trace) \<Rightarrow> (chat_success c, trace)
                | (Inl err, trace) \<Rightarrow> (chat_catch ctx req_body err, trace))
         | _ \<Rightarrow> (res_json 400 (JObj [(''error'', JStr ''messages must be a non-empty array'')]), [])))"

section \<open>The upload endpoint: \<open>POST /api/upload/extract\<close>\<close>

text \<open>
  The server registers two handlers for the route, in this order. Express runs the
  handlers of a route in the order of their registration, and goes on to the next one
  only when a handler calls \<open>next\<close>. The request is taken after the upload middleware:
  \<open>req.file\<close> is the uploaded file, or absent.
\<close>

datatype 'a step = Respond 'a | Next

fun dispatch :: "('q \<Rightarrow> 'a step) list \<Rightarrow> 'q \<Rightarrow> 'a option" where
  \<comment> \<open>\<open>None\<close>: no handler of the route has answered\<close>
  "dispatch [] req = None"
| "dispatch (h # hs) req = (case h req of Respond r \<Rightarrow> Some r | Next \<Rightarrow> dispatch hs req)"

record upload =
  originalname :: string
  mimetype :: string
  pdf_items :: "string list list option"
    \<comment> \<open>the text items of each page as pdf.js reads the buffer; \<open>None\<close>: it rejects\<close>
  mammoth_value :: "string + string"
    \<comment> \<open>\<open>mammoth.extractRawText\<close> on the buffer: \<open>Inr\<close> its value, \<open>Inl\<close> the message of its error\<close>

definition docx_mime :: string where
  "docx_mime = ''application/vnd.openxmlformats-officedocument.wordprocessingml.document''"

definition server_extractPdfText :: "string list list option \<Rightarrow> string + string" where
  \<comment> \<open>\<open>extractPdfText\<close> of the server; \<open>Inl\<close> is the message of the error it throws\<close>
  "server_extractPdfText pdf =
     (case pdf of
        None \<Rightarrow> Inl ''Failed to extract text from PDF''
      | Some pages \<Rightarrow> Inr (trim (concat (map (\<lambda>strings. join '' '' strings @ [CHR 0x0A, CHR 0x0A]) pages))))"

definition upload_ok :: "upload \<Rightarrow> string \<Rightarrow> http_response" where
  "upload_ok f text =
     res_json 200 (JObj [
       (''ok'', JBool True),
       (''filename'', JStr (originalname f)),
       (''text'', JStr (if text \<noteq> [] then text else ''No text could be extracted'')),
       (''mimetype'', JStr (mimetype f))])"

definition upload_failed :: "string \<Rightarrow> http_response" where
  "upload_failed details =
     res_json 500 (JObj [
       (''ok'', JBool False),
       (''error'', JStr ''Failed to process file''),
       (''details'', JStr details)])"

definition upload_extract_1 :: "upload option \<Rightarrow> http_response step" where
  \<comment> \<open>the handler registered first\<close>
  "upload_extract_1 file =
     (case file of
        None \<Rightarrow> Respond (res_json 400 (JObj [(''error'', JStr ''No file uploaded'')]))
      | Some f \<Rightarrow>
          if mimetype f = ''application/pdf'' then
            (case server_extractPdfText (pdf_items f) of
               Inl m \<Rightarrow> Respond (upload_failed m)
             | Inr text \<Rightarrow> Respond (upload_ok f text))
          else if mimetype f = docx_mime then
            (case mammoth_value f of
               Inl m \<Rightarrow> Respond (upload_failed m)
             | Inr text \<Rightarrow> Respond (upload_ok f text))
          else if startsWith (mimetype f) ''image/'' then
            Respond (upload_ok f ''Image OCR processing would happen here'')
          else
            Respond (res_json 400 (JObj [(''error'', JStr (''Unsupported file type: '' @ mimetype f))])))"

definition ends_with_ic :: "string \<Rightarrow> string \<Rightarrow> bool" where
  \<comment> \<open>\<open>/p$/i.test(s)\<close> for a literal \<open>p\<close>\<close>
  "ends_with_ic s p =
     (length p \<le> length s \<and>
      map (canonicalize True) (drop (length s - length p) s) = map (canonicalize True) p)"

definition upload_extract_2 :: "upload option \<Rightarrow> http_response step" where
  \<comment> \<open>the handler registered second\<close>
  "upload_extract_2 file =
     (case file of
        None \<Rightarrow> Respond (res_json 400 (JObj [(''error'', JStr ''No file uploaded'')]))
      | Some f \<Rightarrow>
          let mime = mimetype f;
              name = originalname f;
              isDocx = (mime = docx_mime \<or> ends_with_ic name ''.docx'');
              isDoc = (mime = ''application/msword'' \<or> ends_with_ic name ''.doc'')
          in if isDocx then
               (case mammoth_value f of
                  Inl m \<Rightarrow>
                    Respond (res_json 500 (JObj [(''error'',
                      JStr (if m \<noteq> [] then m else ''Error''))]))
                | Inr v \<Rightarrow> Respond (res_json 200 (JObj [(''ok'', JBool True), (''text'', JStr (trim v))])))
             else if isDoc then
               Respond (res_json 415 (JObj [(''error'',
                 JStr ''DOC format not supported on server. Please convert to DOCX and retry.'')]))
             else
               Respond (res_json 415 (JObj [(''error'', JStr ''Unsupported file type for extraction'')])))"

definition upload_extract :: "upload option \<Rightarrow> http_response option" where
  \<comment> \<open>the route as the application serves it\<close>
  "upload_extract = dispatch [upload_extract_1, upload_extract_2]"

section \<open>The client: text extraction\<close>

text \<open>
  A PDF as pdf.js, the canvas and the OCR engine present it: what each call on a page
  does. A call of a library that rejects is the error \<open>Rejected\<close>; an error the program
  throws itself is \<open>Error\<close> with its message.
\<close>

datatype js_error = Error string | Rejected

record pdf_page =
  page_loads :: bool                   \<comment> \<open>\<open>pdf.getPage(p)\<close> resolves\<close>
  text_items :: "string list option"   \<comment> \<open>the strings of \<open>getTextContent\<close>; \<open>None\<close>: it rejects\<close>
  has_context :: bool                  \<comment> \<open>\<open>canvas.getContext('2d')\<close> is not \<open>null\<close>\<close>
  renders :: bool                      \<comment> \<open>\<open>page.render(...).promise\<close> resolves\<close>
  ocr_raw :: "string option"
    \<comment> \<open>\<open>result?.data?.text || ''\<close> of \<open>Tesseract.recognize\<close> on the rendered page; \<open>None\<close>: it rejects\<close>

datatype fetch_result = FetchFailed string | Fetched http_response

record upload_file =
  ftype :: string                          \<comment> \<open>\<open>File.type\<close>\<close>
  fname :: string                          \<comment> \<open>\<open>File.name\<close>\<close>
  readable :: bool                         \<comment> \<open>\<open>file.arrayBuffer()\<close> resolves\<close>
  pdf_doc :: "pdf_page list option"        \<comment> \<open>the pages; \<open>None\<close>: \<open>getDocument\<close> rejects\<close>
  image_ocr :: "string option"
    \<comment> \<open>\<open>result?.data?.text || ''\<close> of \<open>Tesseract.recognize\<close> on the file as an image; \<open>None\<close>: it rejects\<close>
  word_fetch :: fetch_result               \<comment> \<open>what the upload endpoint answers for the file\<close>

datatype pass = ScannedPass | WholeDocument

record ocr_call =
  ocr_pass :: pass     \<comment> \<open>the second pass of \<open>extractPdfText\<close>, or \<open>extractTextFromPdfViaOCR\<close>\<close>
  ocr_page :: nat      \<comment> \<open>the page number, from 1\<close>
  ocr_scale :: nat     \<comment> \<open>the scale of the viewport that was rendered\<close>

definition blank_line :: string where
  "blank_line = [CHR 0x0A, CHR 0x0A]"

definition ocrCanvas :: "bool \<Rightarrow> pdf_page \<Rightarrow> js_error + string" where
  \<comment> \<open>\<open>ready\<close>: \<open>window.Tesseract\<close> is set\<close>
  "ocrCanvas ready pg =
     (if \<not> ready then Inl (Error ''OCR engine not ready'')
      else (case ocr_raw pg of None \<Rightarrow> Inl Rejected | Some t \<Rightarrow> Inr (trim t)))"

definition pageText_of :: "pdf_page \<Rightarrow> js_error + string" where
  \<comment> \<open>the text layer of the page: \<open>strings.join(' ').trim()\<close>\<close>
  "pageText_of pg =
     (if \<not> page_loads pg then Inl Rejected
      else (case text_items pg of None \<Rightarrow> Inl Rejected | Some strings \<Rightarrow> Inr (trim (join '' '' strings))))"

fun first_pass :: "pdf_page list \<Rightarrow> string \<Rightarrow> js_error + (bool \<times> string)" where
  \<comment> \<open>the first loop of \<open>extractPdfText\<close>: \<open>(isScanned, fullText)\<close> at its end\<close>
  "first_pass [] fullText = Inr (False, fullText)"
| "first_pass (pg # pgs) fullText =
     (case pageText_of pg of
        Inl e \<Rightarrow> Inl e
      | Inr pageText \<Rightarrow>
          if length pageText < 50 then Inr (True, fullText)
          else first_pass pgs (fullText @ pageText @ blank_line))"

fun second_pass ::
  "bool \<Rightarrow> nat \<Rightarrow> pdf_page list \<Rightarrow> string \<Rightarrow> ocr_call list \<Rightarrow> (js_error + string) \<times> ocr_call list" where
  \<comment> \<open>the second loop of \<open>extractPdfText\<close>, from page \<open>p\<close>, with the OCR calls made\<close>
  "second_pass ready p [] fullText log = (Inr fullText, log)"
| "second_pass ready p (pg # pgs) fullText log =
     (if \<not> page_loads pg then (Inl Rejected, log)
      else if \<not> has_context pg then second_pass ready (p + 1) pgs fullText log
      else if \<not> renders pg then (Inl Rejected, log)
      else
        (case ocrCanvas ready pg of
           Inl e \<Rightarrow> (Inl e, log @ [\<lparr>ocr_pass = ScannedPass, ocr_page = p, ocr_scale = 2\<rparr>])
         | Inr pageText \<Rightarrow>
             second_pass ready (p + 1) pgs (fullText @ pageText @ blank_line)
               (log @ [\<lparr>ocr_pass = ScannedPass, ocr_page = p, ocr_scale = 2\<rparr>])))"

definition extract_failed :: js_error where
  "extract_failed =
     Error ''Failed to extract text from PDF. The file might be corrupted or password protected.''"

definition extractPdfText :: "bool \<Rightarrow> pdf_page list option \<Rightarrow> (js_error + string) \<times> ocr_call list" where
  "extractPdfText ready doc =
     (case doc of
        None \<Rightarrow> (Inl extract_failed, [])
      | Some pages \<Rightarrow>
          (case first_pass pages [] of
             Inl e \<Rightarrow> (Inl extract_failed, [])
           | Inr (isScanned, fullText) \<Rightarrow>
               if \<not> isScanned \<and> length (trim fullText) > 0 then (Inr (trim fullText), [])
               else
                 (case second_pass ready 1 pages [] [] of
                    (Inl e, log) \<Rightarrow> (Inl extract_failed, log)
                  | (Inr ocrText, log) \<Rightarrow> (Inr (trim ocrText), log))))"

fun ocr_loop ::
  "bool \<Rightarrow> nat \<Rightarrow> pdf_page list \<Rightarrow> string list \<Rightarrow> ocr_call list
     \<Rightarrow> (js_error + string list) \<times> ocr_call list" where
  \<comment> \<open>the loop of \<open>extractTextFromPdfViaOCR\<close>, from page \<open>i\<close>: \<open>textParts\<close> at its end\<close>
  "ocr_loop ready i [] textParts log = (Inr textParts, log)"
| "ocr_loop ready i (pg # pgs) textParts log =
     (if \<not> page_loads pg then (Inl Rejected, log)
      else if \<not> has_context pg then (Inl (Error ''Could not create canvas context''), log)
      else if \<not> renders pg then (Inl Rejected, log)
      else
        (case ocrCanvas ready pg of
           Inl e \<Rightarrow> (Inl e, log @ [\<lparr>ocr_pass = WholeDocument, ocr_page = i, ocr_scale = 2\<rparr>])
         | Inr ocrText \<Rightarrow>
             ocr_loop ready (i + 1) pgs (if ocrText \<noteq> [] then textParts @ [ocrText] else textParts)
               (log @ [\<lparr>ocr_pass = WholeDocument, ocr_page = i, ocr_scale = 2\<rparr>])))"

definition ocr_try :: "bool \<Rightarrow> upload_file \<Rightarrow> (js_error + string) \<times> ocr_call list" where
  \<comment> \<open>the \<open>try\<close> block of \<open>extractTextFromPdfViaOCR\<close>\<close>
  "ocr_try ready file =
     (if \<not> readable file then (Inl Rejected, [])
      else (case pdf_doc file of
              None \<Rightarrow> (Inl Rejected, [])
            | Some pages \<Rightarrow>
                (case ocr_loop ready 1 pages [] [] of
                   (Inl e, log) \<Rightarrow> (Inl e, log)
                 | (Inr textParts, log) \<Rightarrow> (Inr (trim (join blank_line textParts)), log))))"

definition extractTextFromPdfViaOCR :: "bool \<Rightarrow> upload_file \<Rightarrow> string \<times> ocr_call list" where
  "extractTextFromPdfViaOCR ready file =
     (case ocr_try ready file of
        (Inl e, log) \<Rightarrow> ([], log)
      | (Inr text, log) \<Rightarrow> (text, log))"

definition isWordFile :: "upload_file \<Rightarrow> bool" where
  "isWordFile f =
     (let t = toLowerCase (ftype f); n = toLowerCase (fname f)
      in t = ''application/vnd.openxmlformats-officedocument.wordprocessingml.document'' \<or>
         t = ''application/msword'' \<or> endsWith n ''.docx'' \<or> endsWith n ''.doc'')"

definition extractWordViaServer :: "upload_file \<Rightarrow> js_error + string" where
  "extractWordViaServer file =
     (case word_fetch file of
        FetchFailed m \<Rightarrow> Inl (Error m)
      | Fetched res \<Rightarrow>
          let data = (case body res of Some d \<Rightarrow> d | None \<Rightarrow> JObj []) in
          if \<not> res_ok res then
            Inl (Error (case chain (Some data) ''error'' of
                          Some v \<Rightarrow> if truthy v then js_String v
                                    else ''Upload extract failed ('' @ show_nat (status res) @ '')''
                        | None \<Rightarrow> ''Upload extract failed ('' @ show_nat (status res) @ '')''))
          else
            (case chain (Some data) ''text'' of
               Some (JStr t) \<Rightarrow> Inr (trim t)
             | Some v \<Rightarrow> if truthy v then Inl (Error ''trim is not a function'')
                         else Inr []
             | None \<Rightarrow> Inr []))"

subsection \<open>The validation gate of \<open>onFileChange\<close>\<close>

text \<open>
  \<open>processFile\<close> runs on the file that \<open>onFileChange\<close> has set pending. \<open>onFileChange\<close> does
  so when the type or the name of the file is valid, its own extraction returns, and the
  text it returns looks like a circular. The messages it sets are not modelled. The two
  extractions are two runs: what the server, the canvas or the OCR engine does for the
  file may differ between them, and then \<open>processFile\<close> gets the same file with other
  outcomes.
\<close>

definition validTypes :: "string list" where
  "validTypes =
     [''application/pdf'', ''application/msword'',
      ''application/vnd.openxmlformats-officedocument.wordprocessingml.document'',
      ''image/png'', ''image/jpeg'', ''image/jpg'', ''image/webp'']"

definition valid_name :: "string \<Rightarrow> bool" where
  \<comment> \<open>\<open>/\.(pdf|docx?|png|jpe?g|webp)$/i.test(name)\<close>\<close>
  "valid_name n =
     (ends_with_ic n ''.pdf'' \<or> ends_with_ic n ''.doc'' \<or> ends_with_ic n ''.docx'' \<or>
      ends_with_ic n ''.png'' \<or> ends_with_ic n ''.jpg'' \<or> ends_with_ic n ''.jpeg'' \<or>
      ends_with_ic n ''.webp'')"

definition ocrImageBlob :: "bool \<Rightarrow> upload_file \<Rightarrow> js_error + string" where
  "ocrImageBlob ready f =
     (if \<not> ready then Inl (Error ''OCR engine not ready'')
      else (case image_ocr f of None \<Rightarrow> Inl Rejected | Some t \<Rightarrow> Inr (trim t)))"

definition validation_text :: "bool \<Rightarrow> upload_file \<Rightarrow> js_error + string" where
  \<comment> \<open>\<open>extractedText\<close> when \<open>onFileChange\<close> reaches the test of the circular indicators, or
      the error thrown before\<close>
  "validation_text ready f =
     (if ftype f = ''application/pdf'' then
        (if \<not> readable f then Inl Rejected else fst (extractPdfText ready (pdf_doc f)))
      else if isWordFile f then extractWordViaServer f
      else if startsWith (ftype f) ''image/'' then ocrImageBlob ready f
      else Inr [])"

definition onFileChange_pending :: "bool \<Rightarrow> upload_file \<Rightarrow> bool" where
  \<comment> \<open>\<open>onFileChange\<close> reaches \<open>setPendingFile(f)\<close>\<close>
  "onFileChange_pending ready f =
     ((ftype f \<in> set validTypes \<or> valid_name (fname f)) \<and>
      (case validation_text ready f of Inl e \<Rightarrow> False | Inr t \<Rightarrow> isLikelyCircular t))"

section \<open>The client: the state of the page\<close>

record ui_state =
  extracted :: string
  loading :: bool
  aiLoading :: bool
  aiResult :: string
  error :: string
  analysisJson :: "json option"        \<comment> \<open>\<open>None\<close> is \<open>null\<close>\<close>
  applicable :: json                   \<comment> \<open>\<open>JNull\<close> is \<open>null\<close>\<close>
  notifications :: "(string \<times> string) list"
    \<comment> \<open>title and message of each notification, the newest first\<close>

definition addNotification :: "string \<times> string \<Rightarrow> ui_state \<Rightarrow> ui_state" where
  "addNotification n st = st\<lparr>notifications := n # notifications st\<rparr>"

definition extract_text :: "bool \<Rightarrow> upload_file \<Rightarrow> (js_error + string) \<times> ocr_call list" where
  \<comment> \<open>the value of \<open>text\<close> when \<open>processFile\<close> reaches \<open>setExtracted(text)\<close>, or the error
      thrown before\<close>
  "extract_text ready file =
     (if isWordFile file then (extractWordViaServer file, [])
      else if ftype file = ''application/pdf'' then
        (if \<not> readable file then (Inl Rejected, [])
         else
           (case extractPdfText ready (pdf_doc file) of
              (Inl e, log1) \<Rightarrow> (Inl e, log1)
            | (Inr text, log1) \<Rightarrow>
                if length (trim text) < 100 then
                  (case extractTextFromPdfViaOCR ready file of
                     (text2, log2) \<Rightarrow> (Inr text2, log1 @ log2))
                else (Inr text, log1)))
      else (Inr [], []))"

definition processFile :: "bool \<Rightarrow> ui_state \<Rightarrow> upload_file option \<Rightarrow> ui_state \<times> ocr_call list" where
  "processFile ready st pendingFile =
     (case pendingFile of
        None \<Rightarrow> (st, [])
      | Some file \<Rightarrow>
          let st1 = st\<lparr>loading := True, error := [], aiResult := [],
                       analysisJson := None, applicable := JNull\<rparr>
          in (case extract_text ready file of
                (Inr text, log) \<Rightarrow> (st1\<lparr>extracted := text, loading := False\<rparr>, log)
              | (Inl e, log) \<Rightarrow>
                  (st1\<lparr>error := ''Failed to process document'', loading := False\<rparr>, log)))"

definition direct_text :: "pdf_page \<Rightarrow> string" where
  \<comment> \<open>the text of the page's text layer, empty where there is none to read\<close>
  "direct_text pg = (case text_items pg of Some strings \<Rightarrow> trim (join '' '' strings) | None \<Rightarrow> [])"

definition text_layer :: "pdf_page \<Rightarrow> bool" where
  \<comment> \<open>the page loads and its text layer yields at least 50 characters\<close>
  "text_layer pg = (page_loads pg \<and> text_items pg \<noteq> None \<and> 50 \<le> length (direct_text pg))"

definition ocr_text :: "pdf_page \<Rightarrow> string" where
  \<comment> \<open>what \<open>ocrCanvas\<close> returns for the page when the engine recognises it\<close>
  "ocr_text pg = (case ocr_raw pg of Some t \<Rightarrow> trim t | None \<Rightarrow> [])"

definition page_throws :: "bool \<Rightarrow> pdf_page \<Rightarrow> bool" where
  \<comment> \<open>a step of \<open>extractTextFromPdfViaOCR\<close> on the page throws: loading it, getting the
      canvas context, rendering, or the OCR (engine not ready, or recognition rejects)\<close>
  "page_throws ready pg =
     (\<not> page_loads pg \<or> \<not> has_context pg \<or> \<not> renders pg \<or> \<not> ready \<or> ocr_raw pg = None)"

definition scanned_calls :: "nat \<Rightarrow> ocr_call list" where
  \<comment> \<open>one OCR call of the second pass of \<open>extractPdfText\<close> for each of \<open>n\<close> pages, in page
      order, at scale 2\<close>
  "scanned_calls n =
     map (\<lambda>i. \<lparr>ocr_pass = ScannedPass, ocr_page = i, ocr_scale = 2\<rparr>) [1 ..< Suc n]"

definition second_pass_text :: "pdf_page list \<Rightarrow> string" where
  \<comment> \<open>the OCR output of every page in page order, each followed by a blank line, trimmed\<close>
  "second_pass_text pages = trim (concat (map (\<lambda>pg. ocr_text pg @ blank_line) pages))"

definition fallback_text :: "pdf_page list \<Rightarrow> string" where
  \<comment> \<open>the OCR outputs that are not empty, in page order, joined by blank lines, trimmed\<close>
  "fallback_text pages = trim (join blank_line (filter (\<lambda>t. t \<noteq> []) (map ocr_text pages)))"

definition direct_chars :: "pdf_page list \<Rightarrow> nat" where
  \<comment> \<open>the number of characters that the text layers of the pages yield together\<close>
  "direct_chars pages = sum_list (map (\<lambda>pg. length (direct_text pg)) pages)"

definition whole_document_calls :: "nat \<Rightarrow> ocr_call list" where
  \<comment> \<open>one OCR call for each of \<open>n\<close> pages, in page order, at scale 2\<close>
  "whole_document_calls n =
     map (\<lambda>i. \<lparr>ocr_pass = WholeDocument, ocr_page = i, ocr_scale = 2\<rparr>) [1 ..< Suc n]"

section \<open>The client: analysis\<close>

definition prepareTextForAI :: "string \<Rightarrow> nat \<Rightarrow> string" where
  "prepareTextForAI text maxChars =
     (if text = [] then [] else if length text \<le> maxChars then text else take maxChars text)"

definition buildAnalysisPrompts :: "string \<Rightarrow> string \<times> string" where
  \<comment> \<open>\<open>(system, userMsg)\<close>\<close>
  "buildAnalysisPrompts text =
     (''You are an AI assistant that analyzes regulatory circulars.'',
      ''Analyze this circular and extract key information: '' @ take 1000 text @ ''...'')"

definition parseJsonStrict :: "(string \<Rightarrow> json option) \<Rightarrow> string \<Rightarrow> json" where
  \<comment> \<open>\<open>JSON.parse\<close> is the parameter \<open>parse\<close>, \<open>None\<close> where it throws; \<open>null\<close> then\<close>
  "parseJsonStrict parse jsonString = (case parse jsonString of Some v \<Rightarrow> v | None \<Rightarrow> JNull)"

definition stub_rx :: rx where
  \<comment> \<open>\<open>/stub on error|development stub|dev stub/i\<close>\<close>
  "stub_rx = Alt (Lit ''stub on error'') (Alt (Lit ''development stub'') (Lit ''dev stub''))"

definition stub_error :: string where
  "stub_error = ''AI returned stubbed content. Please ensure OPENAI_API_KEY is set on the server.''"

definition analysis_payload :: "string \<Rightarrow> json" where
  "analysis_payload contentToAnalyze =
     (let prepared = prepareTextForAI contentToAnalyze 8000;
          (system, userMsg) = buildAnalysisPrompts prepared
      in JObj [
           (''model'', JStr ''gpt-4o-mini''),
           (''temperature'', JNum ''0.2''),
           (''messages'', JArr [
              JObj [(''role'', JStr ''system''), (''content'', JStr system)],
              JObj [(''role'', JStr ''user''), (''content'', JStr userMsg)]])])"

definition message_content :: "json \<Rightarrow> string" where
  \<comment> \<open>\<open>(data?.message && data.message.content) ? String(data.message.content) : ''\<close>\<close>
  "message_content data =
     (case chain (Some data) ''message'' of
        None \<Rightarrow> []
      | Some m \<Rightarrow>
          if \<not> truthy m then []
          else (case jprop m ''content'' of
                  None \<Rightarrow> []
                | Some c \<Rightarrow> if truthy c then js_String c else []))"

definition error_or :: "json \<Rightarrow> string \<Rightarrow> string" where
  \<comment> \<open>the message of \<open>new Error(data?.error || fallback)\<close>\<close>
  "error_or data fallback =
     (case chain (Some data) ''error'' of
        None \<Rightarrow> fallback
      | Some v \<Rightarrow> if truthy v then js_String v else fallback)"

definition analyze_try ::
  "(string \<Rightarrow> json option) \<Rightarrow> (json \<Rightarrow> fetch_result) \<Rightarrow> ui_state \<Rightarrow> string
     \<Rightarrow> ui_state \<times> (string + json)" where
  \<comment> \<open>the \<open>try\<close> block of \<open>handleAnalyze\<close> from \<open>setError('')\<close> on: the state it leaves, and the
      value it returns (\<open>Inr\<close>) or the message of the error it throws (\<open>Inl\<close>)\<close>
  "analyze_try parse fetch st contentToAnalyze =
     (let st1 = st\<lparr>error := [], aiResult := [], aiLoading := True\<rparr>
      in case fetch (analysis_payload contentToAnalyze) of
           FetchFailed m \<Rightarrow> (st1, Inl m)
         | Fetched res \<Rightarrow>
             let data = (case body res of Some d \<Rightarrow> d | None \<Rightarrow> JObj []) in
             if status res = 429 then
               let msg = error_or data
                 ''OpenAI rate limit or quota exceeded (429). Please check your OpenAI plan/billing or try again later.''
               in (addNotification (''OpenAI rate limit'', msg) st1, Inl msg)
             else if \<not> res_ok res then
               (st1, Inl (error_or data (''AI analyze failed ('' @ show_nat (status res) @ '')'')))
             else
               let trimmed = trim (message_content data) in
               if rx_test True stub_rx trimmed then (st1, Inl stub_error)
               else
                 let parsed = parseJsonStrict parse trimmed in
                 if truthy parsed then
                   (st1\<lparr>analysisJson := Some parsed,
                        applicable :=
                          (case chain (chain (chain (Some parsed) ''meta'') ''bank_context'') ''applicable'' of
                             None \<Rightarrow> JNull | Some v \<Rightarrow> v)\<rparr>,
                    Inr (case jprop parsed ''summary'' of
                           None \<Rightarrow> JStr ''Analysis complete''
                         | Some v \<Rightarrow> if truthy v then v else JStr ''Analysis complete''))
                 else
                   (st1\<lparr>analysisJson := None, aiResult := trimmed\<rparr>,
                    Inr (JStr (if trimmed \<noteq> [] then trimmed else ''Analysis complete (unstructured)''))))"

definition analyze_catch :: "ui_state \<Rightarrow> string \<Rightarrow> ui_state" where
  \<comment> \<open>the \<open>catch\<close> and \<open>finally\<close> blocks of \<open>handleAnalyze\<close>, for an error of message \<open>m\<close>\<close>
  "analyze_catch st2 m =
     (let msg = (if m \<noteq> [] then m else ''Failed to analyze document'')
      in (addNotification (''AI analysis failed'', msg)
            (st2\<lparr>analysisJson := None, applicable := JNull, error := msg\<rparr>))
         \<lparr>aiLoading := False\<rparr>)"

definition handleAnalyze ::
  "(string \<Rightarrow> json option) \<Rightarrow> (json \<Rightarrow> fetch_result) \<Rightarrow> ui_state \<Rightarrow> string option
     \<Rightarrow> json \<times> ui_state" where
  \<comment> \<open>the value of the promise and the state of the page when it settles\<close>
  "handleAnalyze parse fetch st text =
     (let contentToAnalyze = trim (case text of Some t \<Rightarrow> t | None \<Rightarrow> extracted st)
      in if contentToAnalyze = [] then
           (JStr [], st\<lparr>error := ''No text to analyze'', aiLoading := False\<rparr>)
         else
           (case analyze_try parse fetch st contentToAnalyze of
              (st2, Inr v) \<Rightarrow> (v, st2\<lparr>aiLoading := False\<rparr>)
            | (st2, Inl m) \<Rightarrow> (JStr ''Analysis failed'', analyze_catch st2 m)))"

section \<open>A parser for plain JSON texts\<close>

text \<open>
  \<open>JSON.parse\<close> on the texts whose strings have no escape and whose numbers are integers;
  on any other text the result is \<open>None\<close>. It gives the sample responses of this theory
  their parsed values; the analysis client itself takes the parser as a parameter.
\<close>

definition json_ws :: "char \<Rightarrow> bool" where
  "json_ws c = (c = CHR 0x20 \<or> c = CHR 0x09 \<or> c = CHR 0x0A \<or> c = CHR 0x0D)"

definition skip_ws :: "string \<Rightarrow> string" where
  "skip_ws s = dropWhile json_ws s"

fun parse_string :: "string \<Rightarrow> (string \<times> string) option" where
  \<comment> \<open>after the opening quote: the characters up to the closing quote, and the rest\<close>
  "parse_string [] = None"
| "parse_string (c # cs) =
     (if c = CHR 0x22 then Some ([], cs)
      else if c = CHR 0x5C \<or> between 0 31 c then None
      else (case parse_string cs of None \<Rightarrow> None | Some (s, r) \<Rightarrow> Some (c # s, r)))"

definition parse_number :: "string \<Rightarrow> (json \<times> string) option" where
  "parse_number s =
     (let neg = (s \<noteq> [] \<and> hd s = CHR ''-'');
          s1 = (if neg then tl s else s);
          ds = takeWhile (between 48 57) s1;
          r = dropWhile (between 48 57) s1
      in if ds = [] \<or> (length ds > 1 \<and> hd ds = CHR ''0'') then None
         else if r \<noteq> [] \<and> (hd r = CHR ''.'' \<or> hd r = CHR ''e'' \<or> hd r = CHR ''E'') then None
         else Some (JNum (if neg \<and> ds \<noteq> ''0'' then CHR ''-'' # ds else ds), r))"

fun parse_value :: "nat \<Rightarrow> string \<Rightarrow> (json \<times> string) option"
  and parse_elements :: "nat \<Rightarrow> string \<Rightarrow> (json list \<times> string) option"
  and parse_members :: "nat \<Rightarrow> string \<Rightarrow> ((string \<times> json) list \<times> string) option" where
  "parse_value 0 s = None"
| "parse_value (Suc n) s =
     (case skip_ws s of
        [] \<Rightarrow> None
      | c # cs \<Rightarrow>
          if c = CHR 0x22 then
            (case parse_string cs of None \<Rightarrow> None | Some (t, r) \<Rightarrow> Some (JStr t, r))
          else if c = CHR ''['' then
            (case skip_ws cs of
               [] \<Rightarrow> None
             | d # ds \<Rightarrow>
                 if d = CHR '']'' then Some (JArr [], ds)
                 else (case parse_elements n cs of None \<Rightarrow> None | Some (vs, r) \<Rightarrow> Some (JArr vs, r)))
          else if c = CHR ''{'' then
            (case skip_ws cs of
               [] \<Rightarrow> None
             | d # ds \<Rightarrow>
                 if d = CHR ''}'' then Some (JObj [], ds)
                 else (case parse_members n cs of None \<Rightarrow> None | Some (kvs, r) \<Rightarrow> Some (JObj kvs, r)))
          else if take 4 (c # cs) = ''null'' then Some (JNull, drop 4 (c # cs))
          else if take 4 (c # cs) = ''true'' then Some (JBool True, drop 4 (c # cs))
          else if take 5 (c # cs) = ''false'' then Some (JBool False, drop 5 (c # cs))
          else parse_number (c # cs))"
| "parse_elements 0 s = None"
| "parse_elements (Suc n) s =
     (case parse_value n s of
        None \<Rightarrow> None
      | Some (v, r) \<Rightarrow>
          (case skip_ws r of
             [] \<Rightarrow> None
           | c # cs \<Rightarrow>
               if c = CHR '','' then
                 (case parse_elements n cs of None \<Rightarrow> None | Some (vs, r') \<Rightarrow> Some (v # vs, r'))
               else if c = CHR '']'' then Some ([v], cs)
               else None))"
| "parse_members 0 s = None"
| "parse_members (Suc n) s =
     (case skip_ws s of
        [] \<Rightarrow> None
      | q # qs \<Rightarrow>
          if q \<noteq> CHR 0x22 then None
          else
            (case parse_string qs of
               None \<Rightarrow> None
             | Some (k, r) \<Rightarrow>
                 (case skip_ws r of
                    [] \<Rightarrow> None
                  | c # cs \<Rightarrow>
                      if c \<noteq> CHR '':'' then None
                      else
                        (case parse_value n cs of
                           None \<Rightarrow> None
                         | Some (v, r') \<Rightarrow>
                             (case skip_ws r' of
                                [] \<Rightarrow> None
                              | e # es \<Rightarrow>
                                  if e = CHR '','' then
                                    (case parse_members n es of
                                       None \<Rightarrow> None
                                     | Some (kvs, r'') \<Rightarrow> Some ((k, v) # kvs, r''))
                                  else if e = CHR ''}'' then Some ([(k, v)], es)
                                  else None)))))"

definition JSON_parse :: "string \<Rightarrow> json option" where
  \<comment> \<open>the fuel bounds the depth of the calls, which the length of the text bounds\<close>
  "JSON_parse s =
     (case parse_value (Suc (length s)) s of
        None \<Rightarrow> None
      | Some (v, r) \<Rightarrow> if skip_ws r = [] then Some v else None)"

section \<open>Sample inputs\<close>

definition err429 :: api_error where
  "err429 = \<lparr>e_status = Some 429, e_code = Some ''rate_limit_exceeded'',
             e_message = ''Rate limit reached'', e_error_message = None\<rparr>"

definition sample_completion :: completion where
  "sample_completion =
     \<lparr>c_message = Some (JObj [(''role'', JStr ''assistant''), (''content'', JStr ''ok'')]),
      c_usage = Some (JObj [(''total_tokens'', JNum ''12'')]),
      c_id = Some (JStr ''chatcmpl-1'')\<rparr>"

definition sample_provider :: "nat \<Rightarrow> api_error + completion" where
  \<comment> \<open>a rate-limit error at the first call, a completion from the second on\<close>
  "sample_provider a = (if a = 0 then Inl err429 else Inr sample_completion)"

definition sample_ctx :: chat_ctx where
  "sample_ctx =
     \<lparr>OPENAI_API_KEY = Some ''sk-test'', DEV_STUB_ON_ERROR = None, openai = True,
      late_init_ok = True, provider = sample_provider,
      now_iso = ''2026-11-02T10:00:00.000Z'', now_ms = 1, key_point = ''Stubbed point''\<rparr>"

definition sample_req :: "json option" where
  "sample_req = Some (JObj [(''messages'',
     JArr [JObj [(''role'', JStr ''user''), (''content'', JStr ''Analyze'')]])])"

definition doc_upload :: upload where
  \<comment> \<open>a legacy Word file, as a browser uploads it\<close>
  "doc_upload =
     \<lparr>originalname = ''letter.doc'', mimetype = ''application/msword'',
      pdf_items = None, mammoth_value = Inl ''Could not find file in options''\<rparr>"

definition earlier_state :: ui_state where
  \<comment> \<open>the page after an earlier analysis that succeeded\<close>
  "earlier_state =
     \<lparr>extracted = ''RBI circular on KYC'', loading = False, aiLoading = False,
      aiResult = ''earlier raw result'', error = [],
      analysisJson = Some (JObj [(''summary'', JStr ''earlier summary'')]),
      applicable = JBool True, notifications = []\<rparr>"

definition json_response :: "nat \<Rightarrow> string \<Rightarrow> http_response" where
  \<comment> \<open>an answer of the chat endpoint with this status and message content\<close>
  "json_response n content =
     \<lparr>status = n,
      body = Some (JObj [(''message'',
               JObj [(''role'', JStr ''assistant''), (''content'', JStr content)])])\<rparr>"

definition not_applicable_text :: string where
  \<open>not_applicable_text = ''{"meta":{"bank_context":{"applicable":false}},"summary":"ok"}''\<close>

definition not_applicable_stub_text :: string where
  \<open>not_applicable_stub_text =
     ''{"meta":{"bank_context":{"applicable":false}},"summary":"dev stub"}''\<close>


definition answering :: "http_response \<Rightarrow> json \<Rightarrow> fetch_result" where
  \<comment> \<open>the endpoint answers with this response\<close>
  "answering res payload = Fetched res"

definition stub_ctx :: chat_ctx where
  \<comment> \<open>a server with the development stub switched on\<close>
  "stub_ctx = sample_ctx\<lparr>DEV_STUB_ON_ERROR := Some ''TRUE''\<rparr>"

definition corrupt_pdf :: upload_file where
  \<comment> \<open>a PDF that pdf.js cannot load\<close>
  "corrupt_pdf =
     \<lparr>ftype = ''application/pdf'', fname = ''circular.pdf'', readable = True,
      pdf_doc = None, image_ocr = None, word_fetch = FetchFailed []\<rparr>"

definition text_page :: pdf_page where
  \<comment> \<open>a page with a text layer of 60 characters\<close>
  "text_page =
     \<lparr>page_loads = True,
      text_items = Some [''RBI/2025/12 Master Direction'', ''on KYC for all banks, page one.''],
      has_context = True, renders = True, ocr_raw = Some ''scan''\<rparr>"

definition one_page_pdf :: upload_file where
  "one_page_pdf =
     \<lparr>ftype = ''application/pdf'', fname = ''notice.pdf'', readable = True,
      pdf_doc = Some [text_page], image_ocr = None, word_fetch = FetchFailed []\<rparr>"

definition two_page_pdf :: upload_file where
  "two_page_pdf =
     \<lparr>ftype = ''application/pdf'', fname = ''circular.pdf'', readable = True,
      pdf_doc = Some [text_page, text_page], image_ocr = None, word_fetch = FetchFailed []\<rparr>"

definition scanned_page :: pdf_page where
  \<comment> \<open>a page with no text layer, which the OCR engine reads as \<open>RBI circular\<close>\<close>
  "scanned_page =
     \<lparr>page_loads = True, text_items = Some [], has_context = True, renders = True,
      ocr_raw = Some ''RBI circular''\<rparr>"

definition scanned_pdf :: upload_file where
  \<comment> \<open>two scanned pages; the second one gets no canvas context\<close>
  "scanned_pdf =
     \<lparr>ftype = ''application/pdf'', fname = ''scan.pdf'', readable = True,
      pdf_doc = Some [scanned_page, scanned_page\<lparr>has_context := False\<rparr>],
      image_ocr = None, word_fetch = FetchFailed []\<rparr>"

definition three_pages :: "pdf_page list" where
  \<comment> \<open>three pages with no text layer, each read otherwise by the OCR engine\<close>
  "three_pages =
     [scanned_page, scanned_page\<lparr>ocr_raw := Some ''page two''\<rparr>,
      scanned_page\<lparr>ocr_raw := Some ''page three''\<rparr>]"

definition three_page_scan :: upload_file where
  \<comment> \<open>a scanned PDF of these three pages\<close>
  "three_page_scan =
     \<lparr>ftype = ''application/pdf'', fname = ''scan3.pdf'', readable = True,
      pdf_doc = Some three_pages, image_ocr = None, word_fetch = FetchFailed []\<rparr>"



definition uploaded_state :: ui_state where
  \<comment> \<open>the page with a text in the text area and no analysis yet\<close>
  "uploaded_state =
     \<lparr>extracted = ''RBI circular on KYC'', loading = False, aiLoading = False,
      aiResult = [], error = [], analysisJson = None, applicable = JNull,
      notifications = []\<rparr>"

definition long_page :: pdf_page where
  \<comment> \<open>a page with no text layer, which the OCR engine reads as a line of 40 characters\<close>
  "long_page = scanned_page\<lparr>ocr_raw := Some ''RBI circular on KYC norms for all banks.''\<rparr>"

definition long_scan :: upload_file where
  \<comment> \<open>a scanned PDF of three such pages\<close>
  "long_scan =
     \<lparr>ftype = ''application/pdf'', fname = ''scan40.pdf'', readable = True,
      pdf_doc = Some [long_page, long_page, long_page],
      image_ocr = None, word_fetch = FetchFailed []\<rparr>"

definition pdf_pages :: "upload_file \<Rightarrow> pdf_page list" where
  \<comment> \<open>the pages of a file that pdf.js loads\<close>
  "pdf_pages f = (case pdf_doc f of Some pages \<Rightarrow> pages | None \<Rightarrow> [])"

section \<open>Lemmas on strings and patterns\<close>

lemma dropWhile_hd_id: "xs \<noteq> [] \<Longrightarrow> \<not> P (hd xs) \<Longrightarrow> dropWhile P xs = xs"
  by (cases xs) auto

lemma trim_ends: "s \<noteq> [] \<Longrightarrow> \<not> js_space (hd s) \<Longrightarrow> \<not> js_space (last s) \<Longrightarrow> trim s = s"
  by (simp add: trim_def dropWhile_hd_id hd_rev)

lemma dropWhile_keeps:
  "m \<noteq> [] \<Longrightarrow> \<not> P (hd m) \<Longrightarrow> \<exists>a'. dropWhile P (a @ m @ b) = a' @ m @ b"
proof (induction a)
  case Nil
  then have "dropWhile P (m @ b) = m @ b" by (simp add: dropWhile_hd_id)
  then show ?case by (auto intro: exI[of _ "[]"])
next
  case (Cons x a)
  then show ?case by (auto intro: exI[of _ "x # a"])
qed

lemma trim_keeps:
  assumes "m \<noteq> []" "\<not> js_space (hd m)" "\<not> js_space (last m)"
  shows "\<exists>a' b'. trim (a @ m @ b) = a' @ m @ b'"
proof -
  obtain a' where 1: "dropWhile js_space (a @ m @ b) = a' @ m @ b"
    using dropWhile_keeps[of m js_space a b] assms by blast
  have "rev m \<noteq> []" "\<not> js_space (hd (rev m))"
    using assms by (auto simp: hd_rev)
  then obtain b' where 2: "dropWhile js_space (rev b @ rev m @ rev a') = b' @ rev m @ rev a'"
    using dropWhile_keeps[of "rev m" js_space "rev b" "rev a'"] by blast
  have "trim (a @ m @ b) = a' @ m @ rev b'"
    unfolding trim_def 1 by (simp add: 2)
  then show ?thesis by blast
qed

lemma trim_head_tail:
  assumes a: "trim s \<noteq> []"
  shows "\<not> js_space (hd (trim s)) \<and> \<not> js_space (last (trim s))"
proof -
  let ?e = "dropWhile js_space s"
  let ?d = "dropWhile js_space (rev ?e)"
  have d: "?d \<noteq> []" using a by (simp add: trim_def)
  have l: "\<not> js_space (hd ?d)" using d by (rule hd_dropWhile)
  have e: "?e \<noteq> []" using d by (metis dropWhile.simps(1) rev.simps(1))
  then have h: "\<not> js_space (hd ?e)" by (rule hd_dropWhile)
  have "rev ?e = takeWhile js_space (rev ?e) @ ?d" by simp
  then have "last (rev ?e) = last ?d" using d by (metis last_appendR)
  then have "last ?d = hd ?e" using e by (simp add: last_rev)
  then show ?thesis using l h d by (simp add: trim_def hd_rev last_rev)
qed

lemma trim_append_spaces:
  assumes "s \<noteq> []" "\<not> js_space (hd s)" "\<not> js_space (last s)" "list_all js_space w"
  shows "trim (s @ w) = s"
proof -
  have 1: "dropWhile js_space (s @ w) = s @ w" using assms by (simp add: dropWhile_hd_id)
  have "dropWhile js_space (rev w) = []" using assms(4) by (simp add: list_all_iff)
  moreover have "dropWhile js_space (rev s) = rev s"
    using assms by (simp add: dropWhile_hd_id hd_rev)
  ultimately have 2: "dropWhile js_space (rev w @ rev s) = rev s"
    using assms(4) by (simp add: dropWhile_append list_all_iff)
  show ?thesis unfolding trim_def 1 by (simp add: 2)
qed

lemma lit_rest_same:
  "map (canonicalize ic) m = map (canonicalize ic) p \<Longrightarrow> lit_rest ic p (m @ b) = Some b"
  by (induction ic p m rule: lit_rest.induct) auto

lemma rx_test_here: "rx_rems ic r s \<noteq> [] \<Longrightarrow> rx_test ic r s"
  by (cases s) auto

lemma rx_test_later: "rx_test ic r s \<Longrightarrow> rx_test ic r (a @ s)"
  by (induction a) auto

lemma rx_test_Lit:
  "map (canonicalize ic) m = map (canonicalize ic) p \<Longrightarrow> rx_test ic (Lit p) (a @ m @ b)"
  by (rule rx_test_later, rule rx_test_here) (simp add: lit_rest_same)

lemma rx_test_Alt: "rx_test ic (Alt r1 r2) s = (rx_test ic r1 s \<or> rx_test ic r2 s)"
  by (induction s) auto

lemma canon_lower:
  "between 0 127 (toLowerCase_char c) \<Longrightarrow>
   canonicalize True (toLowerCase_char c) = canonicalize True c"
  by (cases c) (auto simp: toLowerCase_char_def canonicalize_def between_def split: if_splits)

lemma canon_toLowerCase:
  "list_all (between 0 127) (toLowerCase m) \<Longrightarrow>
   map (canonicalize True) (toLowerCase m) = map (canonicalize True) m"
  by (induction m) (auto simp: toLowerCase_def canon_lower)

section \<open>The retry loop\<close>

lemma retry_events_Suc:
  "a < k \<Longrightarrow> retry_events a k = Call a # Wait (delayMs a) # retry_events (Suc a) k"
  by (simp add: retry_events_def upt_conv_Cons)

lemma retry_loop_shape:
  "attempt \<le> maxRetries \<Longrightarrow>
   \<exists>k. attempt \<le> k \<and> k \<le> maxRetries \<and>
       (\<forall>a. attempt \<le> a \<and> a < k \<longrightarrow> retryable prov a) \<and>
       (k < maxRetries \<longrightarrow> \<not> retryable prov k) \<and>
       retry_loop prov maxRetries attempt lastErr trace =
         (prov k, trace @ retry_events attempt k @ [Call k])"
proof (induction prov maxRetries attempt lastErr trace rule: retry_loop.induct)
  case (1 prov maxRetries attempt lastErr trace)
  show ?case
  proof (cases "retryable prov attempt \<and> attempt \<noteq> maxRetries")
    case False
    then have "retry_loop prov maxRetries attempt lastErr trace =
                 (prov attempt, trace @ [Call attempt])"
      using "1.prems" by (auto simp: retryable_def split: sum.splits)
    then show ?thesis
      using False "1.prems" by (intro exI[of _ attempt]) (auto simp: retry_events_def)
  next
    case True
    then obtain e where e: "prov attempt = Inl e" "isRateLimit e"
      by (auto simp: retryable_def split: sum.splits)
    have lt: "attempt + 1 \<le> maxRetries" using True "1.prems" by simp
    from "1.IH"[OF "1.prems" e(1) _ lt] e True
    obtain k where k: "attempt + 1 \<le> k" "k \<le> maxRetries"
      "\<forall>a. attempt + 1 \<le> a \<and> a < k \<longrightarrow> retryable prov a"
      "k < maxRetries \<longrightarrow> \<not> retryable prov k"
      "retry_loop prov maxRetries (attempt + 1) (Some e) (trace @ [Call attempt, Wait (delayMs attempt)]) =
         (prov k, (trace @ [Call attempt, Wait (delayMs attempt)]) @ retry_events (attempt + 1) k @ [Call k])"
      by auto
    have step: "retry_loop prov maxRetries attempt lastErr trace =
        retry_loop prov maxRetries (attempt + 1) (Some e) (trace @ [Call attempt, Wait (delayMs attempt)])"
      using e True "1.prems" by (subst retry_loop.simps) simp
    have "\<forall>a. attempt \<le> a \<and> a < k \<longrightarrow> retryable prov a"
    proof (intro allI impI)
      fix a assume "attempt \<le> a \<and> a < k"
      then show "retryable prov a"
        using k(3) True by (cases "a = attempt") auto
    qed
    moreover have "attempt < k" using k(1) by simp
    ultimately show ?thesis
      using k step by (intro exI[of _ k]) (simp add: retry_events_Suc)
  qed
qed

lemma isRateLimit_iff:
  "isRateLimit e \<longleftrightarrow>
     e_status e = Some 429 \<or> rx_test True (Alt (Lit ''rate limit'') (Lit ''quota'')) (e_message e)"
  by (auto simp: isRateLimit_def status_or_code_def rate_limit_rx_def split: option.splits if_splits)

lemma status_429_isRateLimit: "e_status e = Some 429 \<Longrightarrow> isRateLimit e"
  by (simp add: isRateLimit_def status_or_code_def)

lemma retry_then_success:
  assumes "prov 0 = Inl e" "isRateLimit e" "prov 1 = Inr c"
  shows "callOpenAIWithRetry prov 2 = (Inr c, [Call 0, Wait 2000, Call 1])"
proof -
  have "retry_loop prov 2 0 None [] = retry_loop prov 2 1 (Some e) [Call 0, Wait 2000]"
    by (subst retry_loop.simps) (simp add: assms delayMs_def)
  also have "\<dots> = (Inr c, [Call 0, Wait 2000, Call 1])"
    using assms(3) by (subst retry_loop.simps) simp
  finally show ?thesis by (simp add: callOpenAIWithRetry_def)
qed

lemma no_retry:
  assumes "prov 0 = Inl e" "\<not> isRateLimit e"
  shows "callOpenAIWithRetry prov maxRetries = (Inl e, [Call 0])"
  unfolding callOpenAIWithRetry_def by (subst retry_loop.simps) (simp add: assms)

text \<open>
  Claim C3. The proxy calls the provider again only after a rate-limit error
  (\<open>isRateLimit\<close>: the status of the error is 429, or its message matches \<open>rate limit\<close> or
  \<open>quota\<close> in any letter case): with
  \<open>maxRetries = 2\<close> the calls are at \<open>attempt = 0, ..., k\<close> for some \<open>k \<le> 2\<close>, every call before
  the last failed with a rate-limit error and was followed by a wait of
  \<open>min(2000 * 2^attempt, 8000)\<close> ms (2000, then 4000), and what the last call returns or
  throws is the result. An error that is no rate-limit error is thrown with no retry.
  When the first call fails with status 429 and the second returns a completion, the
  handler answers with status 200, after one wait of 2000 ms between the two calls, and
  the body of the answer carries the completion: its \<open>message\<close> is the message of the first
  choice, its \<open>usage\<close> the usage of the completion (\<open>null\<close> when there is none), its \<open>id\<close>
  the id of the completion, and it has no \<open>error\<close> member.
\<close>

theorem retry_policy:
  "(\<exists>k\<le>2. callOpenAIWithRetry prov 2 = (prov k, retry_events 0 k @ [Call k]) \<and>
           (\<forall>a<k. retryable prov a) \<and> (k < 2 \<longrightarrow> \<not> retryable prov k)) \<and>
   (\<forall>e. prov 0 = Inl e \<and> \<not> isRateLimit e \<longrightarrow> callOpenAIWithRetry prov 2 = (Inl e, [Call 0])) \<and>
   (isRateLimit err \<longleftrightarrow>
      e_status err = Some 429 \<or> rx_test True (Alt (Lit ''rate limit'') (Lit ''quota'')) (e_message err)) \<and>
   delayMs attempt = min (2000 * 2 ^ attempt) 8000 \<and> delayMs 0 = 2000 \<and> delayMs 1 = 4000 \<and>
   (\<forall>e c. OPENAI_API_KEY ctx = Some key \<and> key \<noteq> [] \<and> openai ctx \<and>
          chain req_body ''messages'' = Some (JArr (m # ms)) \<and> provider ctx = prov \<and>
          prov 0 = Inl e \<and> e_status e = Some 429 \<and> prov 1 = Inr c \<longrightarrow>
      (\<exists>data. chat_handler ctx req_body =
                (\<lparr>status = 200, body = Some data\<rparr>, [Call 0, Wait 2000, Call 1]) \<and>
              jprop data ''message'' = c_message c \<and>
              jprop data ''usage'' =
                Some (case c_usage c of None \<Rightarrow> JNull | Some u \<Rightarrow> if truthy u then u else JNull) \<and>
              jprop data ''id'' = c_id c \<and>
              jprop data ''error'' = None))"
proof (intro conjI allI impI)
  show "\<exists>k\<le>2. callOpenAIWithRetry prov 2 = (prov k, retry_events 0 k @ [Call k]) \<and>
           (\<forall>a<k. retryable prov a) \<and> (k < 2 \<longrightarrow> \<not> retryable prov k)"
    using retry_loop_shape[of 0 2 prov None "[]"] unfolding callOpenAIWithRetry_def by auto
next
  show "isRateLimit err \<longleftrightarrow>
      e_status err = Some 429 \<or> rx_test True (Alt (Lit ''rate limit'') (Lit ''quota'')) (e_message err)"
    by (rule isRateLimit_iff)
next
  fix e assume "prov 0 = Inl e \<and> \<not> isRateLimit e"
  then show "callOpenAIWithRetry prov 2 = (Inl e, [Call 0])" by (simp add: no_retry)
next
  show "delayMs attempt = min (2000 * 2 ^ attempt) 8000" by (simp add: delayMs_def)
  show "delayMs 0 = 2000" "delayMs 1 = 4000" by (simp_all add: delayMs_def)
next
  fix e c
  assume a: "OPENAI_API_KEY ctx = Some key \<and> key \<noteq> [] \<and> openai ctx \<and>
          chain req_body ''messages'' = Some (JArr (m # ms)) \<and> provider ctx = prov \<and>
          prov 0 = Inl e \<and> e_status e = Some 429 \<and> prov 1 = Inr c"
  then have r: "callOpenAIWithRetry prov 2 = (Inr c, [Call 0, Wait 2000, Call 1])"
    by (intro retry_then_success[of prov e c]) (simp_all add: status_429_isRateLimit)
  have h: "chat_handler ctx req_body = (chat_success c, [Call 0, Wait 2000, Call 1])"
    using a r by (simp add: chat_handler_def)
  obtain data where d: "chat_success c = \<lparr>status = 200, body = Some data\<rparr>"
    and data: "data = JObj (
       (case c_message c of Some m \<Rightarrow> [(''message'', m)] | None \<Rightarrow> []) @
       [(''usage'', (case c_usage c of Some u \<Rightarrow> if truthy u then u else JNull | None \<Rightarrow> JNull))] @
       (case c_id c of Some i \<Rightarrow> [(''id'', i)] | None \<Rightarrow> []))"
    by (simp add: chat_success_def res_json_def)
  have "jprop data ''message'' = c_message c"
    unfolding data by (cases "c_message c"; cases "c_id c") simp_all
  moreover have "jprop data ''usage'' =
      Some (case c_usage c of None \<Rightarrow> JNull | Some u \<Rightarrow> if truthy u then u else JNull)"
    unfolding data by (cases "c_message c"; cases "c_id c") simp_all
  moreover have "jprop data ''id'' = c_id c"
    unfolding data by (cases "c_message c"; cases "c_id c") simp_all
  moreover have "jprop data ''error'' = None"
    unfolding data by (cases "c_message c"; cases "c_id c") simp_all
  ultimately show "\<exists>data. chat_handler ctx req_body =
                (\<lparr>status = 200, body = Some data\<rparr>, [Call 0, Wait 2000, Call 1]) \<and>
              jprop data ''message'' = c_message c \<and>
              jprop data ''usage'' =
                Some (case c_usage c of None \<Rightarrow> JNull | Some u \<Rightarrow> if truthy u then u else JNull) \<and>
              jprop data ''id'' = c_id c \<and>
              jprop data ''error'' = None"
    using h d by auto
qed

theorem retry_policy_witness:
  "OPENAI_API_KEY sample_ctx = Some ''sk-test'' \<and> openai sample_ctx \<and>
   chain sample_req ''messages'' =
     Some (JArr [JObj [(''role'', JStr ''user''), (''content'', JStr ''Analyze'')]]) \<and>
   provider sample_ctx 0 = Inl err429 \<and> e_status err429 = Some 429 \<and>
   provider sample_ctx 1 = Inr sample_completion \<and>
   retryable sample_provider 0 \<and> \<not> retryable sample_provider 1 \<and>
   c_message sample_completion =
     Some (JObj [(''role'', JStr ''assistant''), (''content'', JStr ''ok'')]) \<and>
   c_usage sample_completion = Some (JObj [(''total_tokens'', JNum ''12'')]) \<and>
   c_id sample_completion = Some (JStr ''chatcmpl-1'') \<and>
   (\<exists>data. chat_handler sample_ctx sample_req =
             (\<lparr>status = 200, body = Some data\<rparr>, [Call 0, Wait 2000, Call 1]) \<and>
           jprop data ''message'' =
             Some (JObj [(''role'', JStr ''assistant''), (''content'', JStr ''ok'')]) \<and>
           jprop data ''usage'' = Some (JObj [(''total_tokens'', JNum ''12'')]) \<and>
           jprop data ''id'' = Some (JStr ''chatcmpl-1'') \<and>
           jprop data ''error'' = None)"
proof -
  have h: "OPENAI_API_KEY sample_ctx = Some ''sk-test'' \<and> ''sk-test'' \<noteq> [] \<and> openai sample_ctx \<and>
     chain sample_req ''messages'' =
       Some (JArr (JObj [(''role'', JStr ''user''), (''content'', JStr ''Analyze'')] # [])) \<and>
     provider sample_ctx = sample_provider \<and>
     sample_provider 0 = Inl err429 \<and> e_status err429 = Some 429 \<and>
     sample_provider 1 = Inr sample_completion"
    by (simp add: sample_ctx_def sample_req_def sample_provider_def err429_def)
  have r: "retryable sample_provider 0 \<and> \<not> retryable sample_provider 1"
    by (simp add: retryable_def sample_provider_def status_429_isRateLimit err429_def)
  have c: "c_message sample_completion =
       Some (JObj [(''role'', JStr ''assistant''), (''content'', JStr ''ok'')])"
    "c_usage sample_completion = Some (JObj [(''total_tokens'', JNum ''12'')])"
    "c_id sample_completion = Some (JStr ''chatcmpl-1'')"
    by (simp_all add: sample_completion_def)
  from retry_policy[where prov = sample_provider and ctx = sample_ctx and key = "''sk-test''"
      and req_body = sample_req and ms = "[]"] h
  have "\<exists>data. chat_handler sample_ctx sample_req =
             (\<lparr>status = 200, body = Some data\<rparr>, [Call 0, Wait 2000, Call 1]) \<and>
           jprop data ''message'' = c_message sample_completion \<and>
           jprop data ''usage'' =
             Some (case c_usage sample_completion of None \<Rightarrow> JNull
                   | Some u \<Rightarrow> if truthy u then u else JNull) \<and>
           jprop data ''id'' = c_id sample_completion \<and>
           jprop data ''error'' = None"
    by blast
  then have "\<exists>data. chat_handler sample_ctx sample_req =
             (\<lparr>status = 200, body = Some data\<rparr>, [Call 0, Wait 2000, Call 1]) \<and>
           jprop data ''message'' =
             Some (JObj [(''role'', JStr ''assistant''), (''content'', JStr ''ok'')]) \<and>
           jprop data ''usage'' = Some (JObj [(''total_tokens'', JNum ''12'')]) \<and>
           jprop data ''id'' = Some (JStr ''chatcmpl-1'') \<and>
           jprop data ''error'' = None"
    unfolding c by simp
  with h r c show ?thesis by simp
qed

section \<open>The circular heuristic\<close>

lemma between_lower: "\<not> between 65 90 (toLowerCase_char c)"
  by (cases c) (auto simp: toLowerCase_char_def between_def split: if_splits)

lemma rep_rems_nil: "0 < lo \<Longrightarrow> f s = [] \<Longrightarrow> rep_rems f lo hi s = []"
  by (cases hi) auto

lemma toLowerCase_Cons: "toLowerCase (c # cs) = toLowerCase_char c # toLowerCase cs"
  by (simp add: toLowerCase_def)

lemma ref_code_rems_lower: "rx_rems False ref_code_rx (toLowerCase s) = []"
proof -
  have "rx_rems False (Range (CHR ''A'') (CHR ''Z'')) (toLowerCase s) = []"
    using between_lower by (cases s) (auto simp: in_range_def toLowerCase_def)
  then show ?thesis
    by (simp add: ref_code_rx_def rep_rems_nil)
qed

text \<open>
  The reference-code pattern needs two capital letters and is tested on the lower-cased
  sample: it matches no sample at all.
\<close>

lemma ref_code_never: "\<not> rx_test False ref_code_rx (toLowerCase s)"
proof (induction s)
  case Nil
  then show ?case using ref_code_rems_lower[of "[]"] by (simp add: toLowerCase_def)
next
  case (Cons c cs)
  then show ?case using ref_code_rems_lower[of "c # cs"] by (simp add: toLowerCase_Cons)
qed

text \<open>
  Claim C6 says that a text whose sample holds a reference code (such as \<open>XY/2024/01\<close>) is
  taken for a circular even when no other indicator matches. On the code it is not: for
  the text \<open>XY/2024/01\<close>, which the reference-code pattern matches as it is written,
  \<open>isLikelyCircular\<close> returns false.
\<close>

theorem reference_code_alone_rejected:
  "isLikelyCircular ''XY/2024/01'' = False \<and> rx_test False ref_code_rx ''XY/2024/01''"
  by code_simp

section \<open>The upload endpoint\<close>

text \<open>The handler registered first answers every request: the second one never runs.\<close>

lemma upload_extract_first_only:
  "upload_extract file = Some r \<longleftrightarrow> upload_extract_1 file = Respond r"
  by (auto simp: upload_extract_def upload_extract_1_def split: option.splits sum.splits)

text \<open>The route answers 200, 400 or 500, and never 415.\<close>

lemma upload_extract_statuses:
  "upload_extract file = Some r \<Longrightarrow> status r = 200 \<or> status r = 400 \<or> status r = 500"
  by (auto simp: upload_extract_def upload_extract_1_def upload_ok_def upload_failed_def res_json_def
      split: option.splits sum.splits if_splits)

text \<open>
  Claim C7 says that the upload of a legacy \<open>.doc\<close> file is answered with status 415 and the
  instruction to convert the file to DOCX. On the code the route answers 400 with
  \<open>Unsupported file type: application/msword\<close>: that is the answer of the handler
  registered first, and the handler registered second, which would answer 415 with the
  instruction, is not reached.
\<close>

theorem doc_upload_answer:
  "upload_extract (Some doc_upload) =
     Some (res_json 400 (JObj [(''error'', JStr ''Unsupported file type: application/msword'')])) \<and>
   upload_extract_2 (Some doc_upload) =
     Respond (res_json 415 (JObj [(''error'',
       JStr ''DOC format not supported on server. Please convert to DOCX and retry.'')]))"
  by code_simp

section \<open>The analysis client\<close>

lemma js_space_lower: "js_space c \<Longrightarrow> toLowerCase_char c = c"
  by (auto simp: js_space_def toLowerCase_char_def between_def)

lemma marker_found:
  assumes p: "toLowerCase m = p" "p \<noteq> []" "\<not> js_space (hd p)" "\<not> js_space (last p)"
    "list_all (between 0 127) p"
  shows "rx_test True (Lit p) (trim (a @ m @ b))"
proof -
  have m: "m \<noteq> []" using p by (auto simp: toLowerCase_def)
  have "hd p = toLowerCase_char (hd m)" "last p = toLowerCase_char (last m)"
    using p(1) m by (auto simp: toLowerCase_def hd_map last_map)
  then have e: "\<not> js_space (hd m)" "\<not> js_space (last m)"
    using p(3,4) js_space_lower by metis+
  obtain a' b' where t: "trim (a @ m @ b) = a' @ m @ b'"
    using trim_keeps[OF m e] by blast
  have "map (canonicalize True) m = map (canonicalize True) p"
    using canon_toLowerCase[of m] p by simp
  then show ?thesis unfolding t by (rule rx_test_Lit)
qed

lemma stub_marker_found:
  assumes "toLowerCase m = ''stub on error'' \<or> toLowerCase m = ''development stub'' \<or>
           toLowerCase m = ''dev stub''"
  shows "rx_test True stub_rx (trim (a @ m @ b))"
proof -
  have 1: "toLowerCase m = ''stub on error'' \<Longrightarrow> rx_test True (Lit ''stub on error'') (trim (a @ m @ b))"
    by (rule marker_found) (simp_all add: js_space_def between_def)
  have 2: "toLowerCase m = ''development stub'' \<Longrightarrow> rx_test True (Lit ''development stub'') (trim (a @ m @ b))"
    by (rule marker_found) (simp_all add: js_space_def between_def)
  have 3: "toLowerCase m = ''dev stub'' \<Longrightarrow> rx_test True (Lit ''dev stub'') (trim (a @ m @ b))"
    by (rule marker_found) (simp_all add: js_space_def between_def)
  show ?thesis using assms 1 2 3 by (auto simp: stub_rx_def rx_test_Alt)
qed

lemma message_content_str:
  assumes "chain (chain (Some data) ''message'') ''content'' = Some (JStr c)" "c \<noteq> []"
  shows "message_content data = c"
proof (cases "chain (Some data) ''message''")
  case None
  then show ?thesis using assms by simp
next
  case (Some msg)
  then have j: "jprop msg ''content'' = Some (JStr c)" using assms by (cases msg) auto
  then have "truthy msg" by (cases msg) auto
  then show ?thesis using Some j assms(2) by (simp add: message_content_def)
qed

lemma handleAnalyze_raise:
  assumes "trim (case arg of Some t \<Rightarrow> t | None \<Rightarrow> extracted st) = input" "input \<noteq> []"
    "analyze_try parse fetch st input = (st2, Inl m)"
  shows "handleAnalyze parse fetch st arg = (JStr ''Analysis failed'', analyze_catch st2 m)"
  using assms by (simp add: handleAnalyze_def analyze_catch_def Let_def)

lemma handleAnalyze_return:
  assumes "trim (case arg of Some t \<Rightarrow> t | None \<Rightarrow> extracted st) = input" "input \<noteq> []"
    "analyze_try parse fetch st input = (st2, Inr v)"
  shows "handleAnalyze parse fetch st arg = (v, st2\<lparr>aiLoading := False\<rparr>)"
  using assms by (simp add: handleAnalyze_def Let_def)

lemma analyze_try_raised_state:
  assumes "analyze_try parse fetch st input = (st2, Inl m)"
  shows "aiResult st2 = [] \<and> extracted st2 = extracted st \<and> loading st2 = loading st"
  using assms
  by (auto simp: analyze_try_def Let_def addNotification_def
      split: fetch_result.splits if_splits)

lemma analyze_try_stub:
  assumes "fetch (analysis_payload input) = Fetched res" "res_ok res" "body res = Some data"
    "rx_test True stub_rx (trim (message_content data))"
  shows "analyze_try parse fetch st input = (st\<lparr>error := [], aiResult := [], aiLoading := True\<rparr>, Inl stub_error)"
  using assms by (simp add: analyze_try_def Let_def res_ok_def)

lemma analyze_try_not_ok:
  assumes "fetch (analysis_payload input) = Fetched res" "\<not> res_ok res"
  shows "\<exists>st2 m. analyze_try parse fetch st input = (st2, Inl m)"
  using assms by (simp add: analyze_try_def Let_def res_ok_def)

lemma analyze_try_structured:
  assumes "fetch (analysis_payload input) = Fetched res" "res_ok res" "body res = Some data"
    "\<not> rx_test True stub_rx (trim (message_content data))"
    "parse (trim (message_content data)) = Some parsed" "truthy parsed"
  shows "\<exists>v. analyze_try parse fetch st input =
           (st\<lparr>error := [], aiResult := [], aiLoading := True, analysisJson := Some parsed,
               applicable := (case chain (chain (chain (Some parsed) ''meta'') ''bank_context'') ''applicable'' of
                                None \<Rightarrow> JNull | Some v \<Rightarrow> v)\<rparr>, Inr v)"
  using assms by (simp add: analyze_try_def Let_def res_ok_def parseJsonStrict_def)

lemma analyze_try_raises_iff:
  "(\<exists>st2 m. analyze_try parse fetch st input = (st2, Inl m)) \<longleftrightarrow>
   (case fetch (analysis_payload input) of
      FetchFailed m \<Rightarrow> True
    | Fetched res \<Rightarrow>
        status res = 429 \<or> \<not> res_ok res \<or>
        rx_test True stub_rx (trim (message_content (case body res of Some d \<Rightarrow> d | None \<Rightarrow> JObj []))))"
  by (auto simp: analyze_try_def Let_def split: fetch_result.splits)

lemma analyze_catch_fields:
  "analysisJson (analyze_catch st2 m) = None \<and> applicable (analyze_catch st2 m) = JNull \<and>
   error (analyze_catch st2 m) = (if m \<noteq> [] then m else ''Failed to analyze document'') \<and>
   error (analyze_catch st2 m) \<noteq> [] \<and>
   hd (notifications (analyze_catch st2 m)) = (''AI analysis failed'', error (analyze_catch st2 m)) \<and>
   aiResult (analyze_catch st2 m) = aiResult st2 \<and> extracted (analyze_catch st2 m) = extracted st2 \<and>
   \<not> aiLoading (analyze_catch st2 m)"
  by (simp add: analyze_catch_def addNotification_def Let_def)

text \<open>
  Claim C4. When the analysis request is answered with a message content that holds
  \<open>development stub\<close>, \<open>stub on error\<close> or \<open>dev stub\<close> in any letter case, \<open>handleAnalyze\<close>
  fails: it returns \<open>Analysis failed\<close>, the structured result is \<open>null\<close>, the raw result is
  empty, the applicability is \<open>null\<close>, and an error message is set and notified. When
  the answer has a success status, the message is the stub-content error that tells the
  operator to set the key of the server; an answer with an error status fails with the
  error of that status.
\<close>

theorem stub_content_rejected:
  assumes given: "trim (case arg of Some t \<Rightarrow> t | None \<Rightarrow> extracted st) = input" "input \<noteq> []"
    and res: "fetch (analysis_payload input) = Fetched res" "body res = Some data"
    and content: "chain (chain (Some data) ''message'') ''content'' = Some (JStr (a @ m @ b))"
    and marker: "toLowerCase m = ''stub on error'' \<or> toLowerCase m = ''development stub'' \<or>
                 toLowerCase m = ''dev stub''"
  shows "\<exists>st'. handleAnalyze parse fetch st arg = (JStr ''Analysis failed'', st') \<and>
           analysisJson st' = None \<and> aiResult st' = [] \<and> applicable st' = JNull \<and>
           error st' \<noteq> [] \<and> (res_ok res \<longrightarrow> error st' = stub_error) \<and>
           hd (notifications st') = (''AI analysis failed'', error st')"
proof -
  have "m \<noteq> []" using marker by (auto simp: toLowerCase_def)
  then have "message_content data = a @ m @ b"
    using content by (intro message_content_str) simp_all
  then have stub: "rx_test True stub_rx (trim (message_content data))"
    using marker by (simp add: stub_marker_found)
  show ?thesis
  proof (cases "res_ok res")
    case True
    have "analyze_try parse fetch st input =
        (st\<lparr>error := [], aiResult := [], aiLoading := True\<rparr>, Inl stub_error)"
      by (rule analyze_try_stub[where fetch = fetch, OF res(1) True res(2) stub])
    from handleAnalyze_raise[where fetch = fetch, OF given this] True show ?thesis
      using analyze_catch_fields[of "st\<lparr>error := [], aiResult := [], aiLoading := True\<rparr>" stub_error]
      by (simp add: stub_error_def)
  next
    case False
    then obtain st2 e where t: "analyze_try parse fetch st input = (st2, Inl e)"
      using analyze_try_not_ok[where fetch = fetch, OF res(1)] by blast
    from handleAnalyze_raise[where fetch = fetch, OF given t] False show ?thesis
      using analyze_catch_fields[of st2 e] analyze_try_raised_state[where fetch = fetch, OF t] by simp
  qed
qed

theorem stub_content_rejected_witness:
  "trim (case None of Some t \<Rightarrow> t | None \<Rightarrow> extracted earlier_state) = ''RBI circular on KYC'' \<and>
   answering (json_response 200 ''A Development Stub.'') (analysis_payload ''RBI circular on KYC'') =
     Fetched (json_response 200 ''A Development Stub.'') \<and>
   chain (chain (body (json_response 200 ''A Development Stub.'')) ''message'') ''content'' =
     Some (JStr (''A '' @ ''Development Stub'' @ ''.'')) \<and>
   toLowerCase ''Development Stub'' = ''development stub'' \<and>
   res_ok (json_response 200 ''A Development Stub.'') \<and>
   (\<exists>st'. handleAnalyze JSON_parse (answering (json_response 200 ''A Development Stub.''))
            earlier_state None = (JStr ''Analysis failed'', st') \<and>
          analysisJson st' = None \<and> aiResult st' = [] \<and> applicable st' = JNull \<and>
          error st' = stub_error)"
proof -
  have 1: "trim (case None of Some t \<Rightarrow> t | None \<Rightarrow> extracted earlier_state) = ''RBI circular on KYC''"
    by code_simp
  have 2: "answering (json_response 200 ''A Development Stub.'') (analysis_payload ''RBI circular on KYC'') =
     Fetched (json_response 200 ''A Development Stub.'')"
    by (simp add: answering_def)
  have 3: "body (json_response 200 ''A Development Stub.'') =
     Some (JObj [(''message'', JObj [(''role'', JStr ''assistant''), (''content'', JStr ''A Development Stub.'')])])"
    by (simp add: json_response_def)
  have 4: "chain (chain (Some (JObj [(''message'', JObj [(''role'', JStr ''assistant''),
             (''content'', JStr ''A Development Stub.'')])])) ''message'') ''content'' =
     Some (JStr (''A '' @ ''Development Stub'' @ ''.''))"
    by simp
  have 5: "toLowerCase ''Development Stub'' = ''development stub''"
    by code_simp
  have 6: "res_ok (json_response 200 ''A Development Stub.'')"
    by (simp add: res_ok_def json_response_def)
  have 7: "''RBI circular on KYC'' \<noteq> []" by simp
  have 8: "toLowerCase ''Development Stub'' = ''stub on error'' \<or>
           toLowerCase ''Development Stub'' = ''development stub'' \<or>
           toLowerCase ''Development Stub'' = ''dev stub''" using 5 by simp
  from stub_content_rejected[where fetch = "answering (json_response 200 ''A Development Stub.'')"
      and parse = JSON_parse and arg = None and st = earlier_state, OF 1 7 2 3 4 8] 6
  show ?thesis using 1 2 3 4 5 by auto
qed


lemma processFile_done:
  assumes "extract_text ready upl = (Inr t, log)"
  shows "processFile ready st0 (Some upl) =
           (st0\<lparr>loading := False, error := [], aiResult := [],
                analysisJson := None, applicable := JNull, extracted := t\<rparr>, log)"
  using assms by (simp add: processFile_def Let_def)

lemma chain_truthy: "chain (Some p) k = Some v \<Longrightarrow> truthy p"
  by (cases p) auto

text \<open>
  Claim C8, amended. When the analysis request is answered with a success status and a
  content that does not match the stub patterns and parses as JSON with
  \<open>meta.bank_context.applicable\<close> equal to \<open>false\<close>, the applicability after
  \<open>handleAnalyze\<close> is the boolean \<open>false\<close>, neither \<open>null\<close> nor \<open>true\<close>; the parsed value is
  the structured result and no error is set.
\<close>

theorem applicable_false_kept:
  assumes given: "trim (case arg of Some t \<Rightarrow> t | None \<Rightarrow> extracted st) = input" "input \<noteq> []"
    and res: "fetch (analysis_payload input) = Fetched res" "res_ok res" "body res = Some data"
    and genuine: "\<not> rx_test True stub_rx (trim (message_content data))"
    and parsed: "parse (trim (message_content data)) = Some parsed"
    and flag: "chain (chain (chain (Some parsed) ''meta'') ''bank_context'') ''applicable'' =
                 Some (JBool False)"
  shows "\<exists>v st'. handleAnalyze parse fetch st arg = (v, st') \<and> applicable st' = JBool False \<and>
           analysisJson st' = Some parsed \<and> error st' = []"
proof -
  obtain meta where "chain (Some parsed) ''meta'' = Some meta"
    using flag by (cases "chain (Some parsed) ''meta''") auto
  then have "truthy parsed" by (rule chain_truthy)
  from analyze_try_structured[where fetch = fetch and parse = parse, OF res genuine parsed this, of st]
  obtain v where "analyze_try parse fetch st input =
     (st\<lparr>error := [], aiResult := [], aiLoading := True, analysisJson := Some parsed,
         applicable := JBool False\<rparr>, Inr v)"
    using flag by auto
  from handleAnalyze_return[where fetch = fetch, OF given this] show ?thesis by simp
qed

theorem applicable_false_kept_witness:
  "trim (case None of Some t \<Rightarrow> t | None \<Rightarrow> extracted earlier_state) = ''RBI circular on KYC'' \<and>
   res_ok (json_response 200 not_applicable_text) \<and>
   \<not> rx_test True stub_rx (trim (message_content (JObj [(''message'',
        JObj [(''role'', JStr ''assistant''), (''content'', JStr not_applicable_text)])]))) \<and>
   JSON_parse (trim (message_content (JObj [(''message'',
        JObj [(''role'', JStr ''assistant''), (''content'', JStr not_applicable_text)])]))) =
     Some (JObj [(''meta'', JObj [(''bank_context'', JObj [(''applicable'', JBool False)])]),
                 (''summary'', JStr ''ok'')]) \<and>
   applicable earlier_state = JBool True \<and>
   (\<exists>v st'. handleAnalyze JSON_parse (answering (json_response 200 not_applicable_text))
              earlier_state None = (v, st') \<and> applicable st' = JBool False)"
proof -
  let ?data = "JObj [(''message'',
        JObj [(''role'', JStr ''assistant''), (''content'', JStr not_applicable_text)])]"
  let ?parsed = "JObj [(''meta'', JObj [(''bank_context'', JObj [(''applicable'', JBool False)])]),
                 (''summary'', JStr ''ok'')]"
  have 1: "trim (case None of Some t \<Rightarrow> t | None \<Rightarrow> extracted earlier_state) = ''RBI circular on KYC''"
    by code_simp
  have 2: "''RBI circular on KYC'' \<noteq> []" by simp
  have 3: "answering (json_response 200 not_applicable_text) (analysis_payload ''RBI circular on KYC'') =
     Fetched (json_response 200 not_applicable_text)"
    by (simp add: answering_def)
  have 4: "res_ok (json_response 200 not_applicable_text)"
    by (simp add: res_ok_def json_response_def)
  have 5: "body (json_response 200 not_applicable_text) = Some ?data"
    by (simp add: json_response_def)
  have 6: "\<not> rx_test True stub_rx (trim (message_content ?data))"
    by code_simp
  have 7: "JSON_parse (trim (message_content ?data)) = Some ?parsed"
    by code_simp
  have 8: "chain (chain (chain (Some ?parsed) ''meta'') ''bank_context'') ''applicable'' =
                 Some (JBool False)"
    by simp
  have 9: "applicable earlier_state = JBool True" by (simp add: earlier_state_def)
  from applicable_false_kept[where fetch = "answering (json_response 200 not_applicable_text)"
      and parse = JSON_parse and arg = None and st = earlier_state, OF 1 2 3 4 5 6 7 8]
  show ?thesis using 1 4 6 7 9 by blast
qed

text \<open>
  Claim C8 as it is stated, for every answer that parses as JSON with
  \<open>meta.bank_context.applicable\<close> equal to \<open>false\<close>, fails on an answer whose content also
  matches a stub pattern: the stub guard comes before the parsing, and the applicability
  is \<open>null\<close>.
\<close>

theorem applicable_false_stub_counterexample:
  "JSON_parse not_applicable_stub_text =
     Some (JObj [(''meta'', JObj [(''bank_context'', JObj [(''applicable'', JBool False)])]),
                 (''summary'', JStr ''dev stub'')]) \<and>
   applicable (snd (handleAnalyze JSON_parse (answering (json_response 200 not_applicable_stub_text))
                      earlier_state None)) = JNull"
  by code_simp

section \<open>The development stub\<close>

lemma join_member: "x \<in> set xs \<Longrightarrow> \<exists>a b. join sep xs = a @ x @ b"
proof (induction sep xs rule: join.induct)
  case (1 sep)
  then show ?case by simp
next
  case (2 sep y)
  then have "join sep [y] = [] @ x @ []" by simp
  then show ?case by blast
next
  case (3 sep y z zs)
  show ?case
  proof (cases "x = y")
    case True
    then have "join sep (y # z # zs) = [] @ x @ (sep @ join sep (z # zs))" by simp
    then show ?thesis by blast
  next
    case False
    then obtain a b where "join sep (z # zs) = a @ x @ b" using 3 by auto
    then have "join sep (y # z # zs) = (y @ sep @ a) @ x @ b" by simp
    then show ?thesis by blast
  qed
qed

lemma stringify_member:
  assumes "(k, JStr v) \<in> set kvs"
  shows "\<exists>a b. stringify (JObj kvs) = a @ quoteJSONString v @ b"
proof -
  have "quoteJSONString k @ '':'' @ stringify (JStr v)
          \<in> set (map (\<lambda>(k, v). quoteJSONString k @ '':'' @ stringify v) kvs)"
    using assms by force
  from join_member[OF this, of "'',''"] obtain a b where
    "join '','' (map (\<lambda>(k, v). quoteJSONString k @ '':'' @ stringify v) kvs) =
       a @ (quoteJSONString k @ '':'' @ stringify (JStr v)) @ b" by blast
  then have "stringify (JObj kvs) = (''{'' @ a @ quoteJSONString k @ '':'') @ quoteJSONString v @ (b @ ''}'')"
    by simp
  then show ?thesis by blast
qed

lemma summary_quoted:
  "quoteJSONString ''Development fallback summary (stub on error).'' =
     (CHR 0x22 # ''Development fallback summary ('') @ ''stub on error'' @ ('').'' @ [CHR 0x22])"
  by code_simp

lemma stub_content_marked:
  "\<exists>a b. stringify (stubContent kp cid now details) = a @ ''stub on error'' @ b"
proof -
  obtain kvs where kvs: "stubContent kp cid now details = JObj kvs"
    "(''summary'', JStr ''Development fallback summary (stub on error).'') \<in> set kvs"
    by (simp add: stubContent_def)
  from stringify_member[OF kvs(2)] obtain a b where
    "stringify (JObj kvs) = a @ quoteJSONString ''Development fallback summary (stub on error).'' @ b"
    by blast
  then have "stringify (stubContent kp cid now details) =
     (a @ CHR 0x22 # ''Development fallback summary ('') @ ''stub on error'' @ ('').'' @ [CHR 0x22] @ b)"
    unfolding kvs(1) summary_quoted by simp
  then show ?thesis by blast
qed

lemma stub_response_content:
  "\<exists>data c. stub_response ctx req_body details = \<lparr>status = 200, body = Some data\<rparr> \<and>
     chain (chain (Some data) ''message'') ''content'' = Some (JStr c) \<and>
     c = stringify (stubContent (key_point ctx)
           (case circularIdMatch (js_String (userMsg_of req_body)) of Some g \<Rightarrow> trim g | None \<Rightarrow> ''unknown'')
           (now_iso ctx) details)"
  by (simp add: stub_response_def res_json_def Let_def)

lemma stub_response_matches:
  "\<exists>data. stub_response ctx req_body details = \<lparr>status = 200, body = Some data\<rparr> \<and>
     rx_test True stub_rx (trim (message_content data))"
proof -
  obtain data c where d: "stub_response ctx req_body details = \<lparr>status = 200, body = Some data\<rparr>"
    "chain (chain (Some data) ''message'') ''content'' = Some (JStr c)"
    "c = stringify (stubContent (key_point ctx)
           (case circularIdMatch (js_String (userMsg_of req_body)) of Some g \<Rightarrow> trim g | None \<Rightarrow> ''unknown'')
           (now_iso ctx) details)"
    using stub_response_content by blast
  obtain a b where c: "c = a @ ''stub on error'' @ b"
    using d(3) stub_content_marked by blast
  then have mc: "message_content data = a @ ''stub on error'' @ b"
    using d(2) by (intro message_content_str) simp_all
  have lc: "toLowerCase ''stub on error'' = ''stub on error''" by code_simp
  have "rx_test True stub_rx (trim (a @ ''stub on error'' @ b))"
    by (rule stub_marker_found) (simp only: lc simp_thms)
  then have "rx_test True stub_rx (trim (message_content data))"
    unfolding mc .
  with d(1) show ?thesis by blast
qed

lemma chat_handler_failure:
  assumes "OPENAI_API_KEY ctx = Some key" "key \<noteq> []" "openai ctx \<or> late_init_ok ctx"
    "chain req_body ''messages'' = Some (JArr (m # ms))"
    "callOpenAIWithRetry (provider ctx) 2 = (Inl err, trace)"
  shows "chat_handler ctx req_body = (chat_catch ctx req_body err, trace)"
  using assms by (simp add: chat_handler_def)

text \<open>
  Claim C5. When the proxy is allowed to answer with the development stub
  (\<open>DEV_STUB_ON_ERROR\<close> is \<open>true\<close> in some letter case) and the provider call has failed,
  the answer has status 200 and a message content that matches the stub patterns of the
  client, whatever the request, the error and the clock: the content is the printed
  stub object, whose summary holds \<open>stub on error\<close>. A client that gets this answer to its
  analysis request rejects it: \<open>handleAnalyze\<close> fails with the stub-content error and stores
  no analysis.
\<close>

theorem stub_payload_rejected:
  assumes flag: "allowStub ctx"
    and given: "trim (case arg of Some t \<Rightarrow> t | None \<Rightarrow> extracted st) = input" "input \<noteq> []"
    and res: "fetch (analysis_payload input) = Fetched (chat_catch ctx req_body err)"
  shows "(\<exists>data. chat_catch ctx req_body err = \<lparr>status = 200, body = Some data\<rparr> \<and>
                rx_test True stub_rx (trim (message_content data))) \<and>
         (\<exists>st'. handleAnalyze parse fetch st arg = (JStr ''Analysis failed'', st') \<and>
                error st' = stub_error \<and> analysisJson st' = None \<and> aiResult st' = [] \<and>
                applicable st' = JNull)"
proof -
  have c: "chat_catch ctx req_body err = stub_response ctx req_body (error_details err)"
    using flag by (simp add: chat_catch_def Let_def)
  obtain data where d: "chat_catch ctx req_body err = \<lparr>status = 200, body = Some data\<rparr>"
    "rx_test True stub_rx (trim (message_content data))"
    using stub_response_matches[of ctx req_body "error_details err"] c by auto
  have ok: "res_ok (chat_catch ctx req_body err)" "body (chat_catch ctx req_body err) = Some data"
    using d(1) by (simp_all add: res_ok_def)
  have "analyze_try parse fetch st input =
        (st\<lparr>error := [], aiResult := [], aiLoading := True\<rparr>, Inl stub_error)"
    by (rule analyze_try_stub[where fetch = fetch, OF res ok d(2)])
  from handleAnalyze_raise[where fetch = fetch, OF given this]
  have "\<exists>st'. handleAnalyze parse fetch st arg = (JStr ''Analysis failed'', st') \<and>
                error st' = stub_error \<and> analysisJson st' = None \<and> aiResult st' = [] \<and>
                applicable st' = JNull"
    using analyze_catch_fields[of "st\<lparr>error := [], aiResult := [], aiLoading := True\<rparr>" stub_error]
    by (simp add: stub_error_def)
  with d show ?thesis by blast
qed

theorem stub_payload_rejected_witness:
  "allowStub stub_ctx \<and>
   trim (case None of Some t \<Rightarrow> t | None \<Rightarrow> extracted earlier_state) = ''RBI circular on KYC'' \<and>
   answering (chat_catch stub_ctx sample_req err429) (analysis_payload ''RBI circular on KYC'') =
     Fetched (chat_catch stub_ctx sample_req err429) \<and>
   (\<exists>st'. handleAnalyze JSON_parse (answering (chat_catch stub_ctx sample_req err429))
            earlier_state None = (JStr ''Analysis failed'', st') \<and>
          error st' = stub_error \<and> analysisJson st' = None \<and> aiResult st' = [] \<and>
          applicable st' = JNull)"
proof -
  have 1: "allowStub stub_ctx" by code_simp
  have 2: "trim (case None of Some t \<Rightarrow> t | None \<Rightarrow> extracted earlier_state) = ''RBI circular on KYC''"
    by code_simp
  have 3: "''RBI circular on KYC'' \<noteq> []" by simp
  have 4: "answering (chat_catch stub_ctx sample_req err429) (analysis_payload ''RBI circular on KYC'') =
     Fetched (chat_catch stub_ctx sample_req err429)"
    by (simp add: answering_def)
  from stub_payload_rejected[where fetch = "answering (chat_catch stub_ctx sample_req err429)"
      and parse = JSON_parse and arg = None and st = earlier_state, OF 1 2 3 4]
  show ?thesis using 1 2 4 by blast
qed

section \<open>Text extraction from a PDF\<close>

lemma ocr_loop_throws:
  assumes "pg \<in> set pages" "page_throws ready pg"
  shows "\<exists>e log'. ocr_loop ready i pages parts log = (Inl e, log')"
  using assms
proof (induction pages arbitrary: i parts log)
  case Nil
  then show ?case by simp
next
  case (Cons p ps)
  show ?case
  proof (cases "page_throws ready p")
    case True
    then show ?thesis
      by (auto simp: page_throws_def ocrCanvas_def split: option.splits)
  next
    case False
    then have "pg \<in> set ps" using Cons.prems by auto
    from Cons.IH[OF this Cons.prems(2)] False show ?thesis
      by (auto simp: page_throws_def ocrCanvas_def split: option.splits)
  qed
qed

lemma ocr_loop_runs:
  assumes "list_all (\<lambda>pg. \<not> page_throws ready pg) pages"
  shows "ocr_loop ready i pages parts log =
           (Inr (parts @ filter (\<lambda>t. t \<noteq> []) (map ocr_text pages)),
            log @ map (\<lambda>j. \<lparr>ocr_pass = WholeDocument, ocr_page = j, ocr_scale = 2\<rparr>)
                    [i ..< i + length pages])"
  using assms
proof (induction pages arbitrary: i parts log)
  case Nil
  then show ?case by simp
next
  case (Cons p ps)
  then have p: "page_loads p" "has_context p" "renders p" "ready" "ocr_raw p \<noteq> None"
    and ps: "list_all (\<lambda>pg. \<not> page_throws ready pg) ps"
    by (auto simp: page_throws_def)
  then obtain t where t: "ocr_raw p = Some t" by auto
  have c: "ocrCanvas ready p = Inr (ocr_text p)"
    using p t by (simp add: ocrCanvas_def ocr_text_def)
  have "i < i + length (p # ps)" by simp
  from upt_conv_Cons[OF this]
  have u: "[i ..< i + length (p # ps)] = i # [Suc i ..< Suc i + length ps]"
    by simp
  show ?case
    using p c Cons.IH[OF ps, of "Suc i"] unfolding u by simp
qed

text \<open>
  Claim C10. \<open>extractTextFromPdfViaOCR\<close> returns the empty string whenever a step of it
  throws: the file cannot be read, pdf.js cannot load it, or on some page the page does
  not load, no canvas context is given, the rendering fails, the OCR engine is not ready
  or the recognition rejects. In \<open>processFile\<close>, when the first extraction has returned
  fewer than 100 characters, the extracted text is then the empty string and no error
  message is set.
\<close>

theorem ocr_fallback_swallows_errors:
  assumes "\<not> readable upl \<or> pdf_doc upl = None \<or>
           (\<exists>pages pg. pdf_doc upl = Some pages \<and> pg \<in> set pages \<and> page_throws ready pg)"
  shows "fst (extractTextFromPdfViaOCR ready upl) = [] \<and>
         (\<forall>t log1. \<not> isWordFile upl \<and> ftype upl = ''application/pdf'' \<and> readable upl \<and>
             extractPdfText ready (pdf_doc upl) = (Inr t, log1) \<and> length (trim t) < 100 \<longrightarrow>
           (\<exists>st' log. processFile ready st0 (Some upl) = (st', log) \<and>
                      extracted st' = [] \<and> error st' = []))"
proof -
  have "\<exists>e log. ocr_try ready upl = (Inl e, log)"
  proof (cases "\<not> readable upl \<or> pdf_doc upl = None")
    case True
    then show ?thesis by (auto simp: ocr_try_def)
  next
    case False
    then obtain pages pg where p: "pdf_doc upl = Some pages" "pg \<in> set pages" "page_throws ready pg"
      using assms by auto
    from ocr_loop_throws[OF p(2,3), of 1 "[]" "[]"] p(1) False show ?thesis
      by (auto simp: ocr_try_def)
  qed
  then obtain e log2 where "ocr_try ready upl = (Inl e, log2)" by blast
  then have x: "extractTextFromPdfViaOCR ready upl = ([], log2)"
    by (simp add: extractTextFromPdfViaOCR_def)
  show ?thesis
  proof (intro conjI allI impI)
    show "fst (extractTextFromPdfViaOCR ready upl) = []" using x by simp
  next
    fix t log1
    assume a: "\<not> isWordFile upl \<and> ftype upl = ''application/pdf'' \<and> readable upl \<and>
             extractPdfText ready (pdf_doc upl) = (Inr t, log1) \<and> length (trim t) < 100"
    then have "extract_text ready upl = (Inr [], log1 @ log2)"
      using x by (simp add: extract_text_def)
    from processFile_done[OF this, of st0]
    show "\<exists>st' log. processFile ready st0 (Some upl) = (st', log) \<and>
                      extracted st' = [] \<and> error st' = []"
      by simp
  qed
qed

theorem ocr_fallback_swallows_errors_witness:
  "pdf_doc one_page_pdf = Some [text_page] \<and> page_throws False text_page \<and>
   \<not> isWordFile one_page_pdf \<and> readable one_page_pdf \<and>
   extractPdfText False (pdf_doc one_page_pdf) =
     (Inr ''RBI/2025/12 Master Direction on KYC for all banks, page one.'', []) \<and>
   fst (extractTextFromPdfViaOCR False one_page_pdf) = [] \<and>
   (\<exists>st' log. processFile False earlier_state (Some one_page_pdf) = (st', log) \<and>
              extracted st' = [] \<and> error st' = [])"
proof -
  have 1: "pdf_doc one_page_pdf = Some [text_page] \<and> text_page \<in> set [text_page] \<and>
           page_throws False text_page"
    by (simp add: one_page_pdf_def page_throws_def)
  have 2: "\<not> isWordFile one_page_pdf \<and> ftype one_page_pdf = ''application/pdf'' \<and>
           readable one_page_pdf \<and>
           extractPdfText False (pdf_doc one_page_pdf) =
             (Inr ''RBI/2025/12 Master Direction on KYC for all banks, page one.'', []) \<and>
           length (trim ''RBI/2025/12 Master Direction on KYC for all banks, page one.'') < 100"
    by code_simp
  have "\<not> readable one_page_pdf \<or> pdf_doc one_page_pdf = None \<or>
        (\<exists>pages pg. pdf_doc one_page_pdf = Some pages \<and> pg \<in> set pages \<and> page_throws False pg)"
    using 1 by blast
  from ocr_fallback_swallows_errors[OF this, of earlier_state] 1 2 show ?thesis by blast
qed

lemma processFile_pdf_fallback:
  assumes "\<not> isWordFile upl" "ftype upl = ''application/pdf''" "readable upl"
    "extractPdfText ready (pdf_doc upl) = (Inr t, log1)" "length (trim t) < 100"
    "extractTextFromPdfViaOCR ready upl = (t2, log2)"
  shows "extract_text ready upl = (Inr t2, log1 @ log2)"
  using assms by (simp add: extract_text_def)

lemma first_pass_all:
  "list_all text_layer pages \<Longrightarrow>
   first_pass pages full = Inr (False, full @ concat (map (\<lambda>pg. direct_text pg @ blank_line) pages))"
proof (induction pages arbitrary: full)
  case Nil
  then show ?case by simp
next
  case (Cons p ps)
  then obtain xs where "page_loads p" "text_items p = Some xs" "50 \<le> length (direct_text p)"
    by (auto simp: text_layer_def)
  then have "pageText_of p = Inr (direct_text p)" "\<not> length (direct_text p) < 50"
    by (simp_all add: pageText_of_def direct_text_def)
  then show ?case using Cons by simp
qed

lemma concat_join: "ts \<noteq> [] \<Longrightarrow> concat (map (\<lambda>t. t @ sep) ts) = join sep ts @ sep"
  by (induction sep ts rule: join.induct) auto

lemma hd_join: "ts \<noteq> [] \<Longrightarrow> hd ts \<noteq> [] \<Longrightarrow> hd (join sep ts) = hd (hd ts)"
  by (induction sep ts rule: join.induct) auto

lemma join_nonempty_last: "ts \<noteq> [] \<Longrightarrow> last ts \<noteq> [] \<Longrightarrow> join sep ts \<noteq> []"
  by (induction sep ts rule: join.induct) auto

lemma last_join: "ts \<noteq> [] \<Longrightarrow> last ts \<noteq> [] \<Longrightarrow> last (join sep ts) = last (last ts)"
proof (induction sep ts rule: join.induct)
  case (3 sep x y ys)
  then have "join sep (y # ys) \<noteq> []" by (intro join_nonempty_last) auto
  then show ?case using 3 by simp
qed auto

lemma join_nonempty: "ts \<noteq> [] \<Longrightarrow> hd ts \<noteq> [] \<Longrightarrow> join sep ts \<noteq> []"
  by (induction sep ts rule: join.induct) auto

lemma direct_text_ends:
  assumes "direct_text pg \<noteq> []"
  shows "\<not> js_space (hd (direct_text pg)) \<and> \<not> js_space (last (direct_text pg))"
proof (cases "text_items pg")
  case None
  then show ?thesis using assms by (simp add: direct_text_def)
next
  case (Some xs)
  then show ?thesis using assms trim_head_tail[of "join '' '' xs"] by (simp add: direct_text_def)
qed

lemma joined_text_trimmed:
  assumes "pages \<noteq> []" "list_all text_layer pages"
  shows "join blank_line (map direct_text pages) \<noteq> [] \<and>
         trim (join blank_line (map direct_text pages) @ blank_line) =
           join blank_line (map direct_text pages) \<and>
         trim (join blank_line (map direct_text pages)) = join blank_line (map direct_text pages)"
proof -
  let ?ts = "map direct_text pages"
  let ?J = "join blank_line ?ts"
  have ne: "?ts \<noteq> []" using assms by simp
  have "text_layer (hd pages)" "text_layer (last pages)"
    using assms by (auto simp: list_all_iff)
  then have h: "hd ?ts \<noteq> []" and l: "last ?ts \<noteq> []"
    using assms(1) by (auto simp: text_layer_def hd_map last_map)
  have hs: "\<not> js_space (hd (hd ?ts))" using h assms(1) direct_text_ends by (simp add: hd_map)
  have ls: "\<not> js_space (last (last ?ts))" using l assms(1) direct_text_ends by (simp add: last_map)
  have J: "?J \<noteq> []" "\<not> js_space (hd ?J)" "\<not> js_space (last ?J)"
    using ne h l hs ls by (simp_all add: join_nonempty hd_join last_join)
  have "list_all js_space blank_line" by (simp add: blank_line_def js_space_def)
  from trim_append_spaces[OF J this] trim_ends[OF J] J(1) show ?thesis by simp
qed

lemma extractPdfText_direct:
  assumes "pages \<noteq> []" "list_all text_layer pages"
  shows "extractPdfText ready (Some pages) = (Inr (join blank_line (map direct_text pages)), [])"
proof -
  have "concat (map (\<lambda>pg. direct_text pg @ blank_line) pages) =
          concat (map (\<lambda>t. t @ blank_line) (map direct_text pages))"
    by (simp add: comp_def)
  also have "\<dots> = join blank_line (map direct_text pages) @ blank_line"
    using assms(1) by (intro concat_join) simp
  finally have "first_pass pages [] =
      Inr (False, join blank_line (map direct_text pages) @ blank_line)"
    using first_pass_all[OF assms(2), of "[]"] by simp
  then show ?thesis
    using joined_text_trimmed[OF assms] by (simp add: extractPdfText_def)
qed

lemma length_join_ge: "length y \<le> length (join sep (y # ys))"
  by (cases ys) auto

lemma two_pages_suffice:
  assumes "2 \<le> length pages" "list_all text_layer pages"
  shows "100 \<le> length (join blank_line (map direct_text pages))"
proof -
  obtain p q ps where pages: "pages = p # q # ps"
    using assms(1) by (cases pages; cases "tl pages") auto
  then have "50 \<le> length (direct_text p)" "50 \<le> length (direct_text q)"
    using assms(2) by (auto simp: text_layer_def)
  moreover have "length (direct_text q) \<le> length (join blank_line (direct_text q # map direct_text ps))"
    by (rule length_join_ge)
  ultimately show ?thesis unfolding pages by simp
qed

text \<open>
  Claim C1, amended. When every page of a PDF has a text layer of at least 50 characters
  and the page texts, joined by blank lines, have at least 100 characters (so it is
  whenever there are two pages or more, \<open>two_pages_suffice\<close>), no OCR is called on any
  page, neither by the second pass of \<open>extractPdfText\<close> nor by the whole-document fallback,
  and the extracted text is the page texts in page order, joined by blank lines.
\<close>

theorem text_pdf_needs_no_ocr:
  assumes pdf: "\<not> isWordFile upl" "ftype upl = ''application/pdf''" "readable upl"
      "pdf_doc upl = Some pages"
    and layers: "list_all text_layer pages"
    and enough: "100 \<le> length (join blank_line (map direct_text pages))"
  shows "extractPdfText ready (Some pages) = (Inr (join blank_line (map direct_text pages)), []) \<and>
         (\<exists>st'. processFile ready st0 (Some upl) = (st', []) \<and>
                extracted st' = join blank_line (map direct_text pages) \<and> error st' = [])"
proof -
  have ne: "pages \<noteq> []" using enough by auto
  have x: "extractPdfText ready (Some pages) = (Inr (join blank_line (map direct_text pages)), [])"
    using ne layers by (rule extractPdfText_direct)
  have "\<not> length (trim (join blank_line (map direct_text pages))) < 100"
    using joined_text_trimmed[OF ne layers] enough by simp
  then have "extract_text ready upl = (Inr (join blank_line (map direct_text pages)), [])"
    using pdf x by (simp add: extract_text_def)
  from processFile_done[OF this, of st0] x show ?thesis by simp
qed

theorem text_pdf_needs_no_ocr_witness:
  "\<not> isWordFile two_page_pdf \<and> readable two_page_pdf \<and>
   pdf_doc two_page_pdf = Some [text_page, text_page] \<and>
   list_all text_layer [text_page, text_page] \<and>
   join blank_line (map direct_text [text_page, text_page]) =
     ''RBI/2025/12 Master Direction on KYC for all banks, page one.'' @ blank_line @
     ''RBI/2025/12 Master Direction on KYC for all banks, page one.'' \<and>
   (\<exists>st'. processFile True earlier_state (Some two_page_pdf) = (st', []) \<and>
          extracted st' = join blank_line (map direct_text [text_page, text_page]) \<and>
          error st' = [])"
proof -
  have 1: "\<not> isWordFile two_page_pdf" "ftype two_page_pdf = ''application/pdf''"
    "readable two_page_pdf" "pdf_doc two_page_pdf = Some [text_page, text_page]"
    by code_simp+
  have 2: "list_all text_layer [text_page, text_page]"
    by code_simp
  have 3: "join blank_line (map direct_text [text_page, text_page]) =
     ''RBI/2025/12 Master Direction on KYC for all banks, page one.'' @ blank_line @
     ''RBI/2025/12 Master Direction on KYC for all banks, page one.''"
    by code_simp
  have 4: "100 \<le> length (join blank_line (map direct_text [text_page, text_page]))"
    using two_pages_suffice[OF _ 2] by simp
  from text_pdf_needs_no_ocr[OF 1 2 4, of True earlier_state] 1 2 3 show ?thesis by blast
qed

text \<open>
  Claim C1 as it is stated, for every PDF whose pages have at least 50 characters each,
  fails on a PDF of one page with 60 characters of text: \<open>processFile\<close> takes a text of
  under 100 characters for too little, the whole-document fallback calls the OCR on the
  page, and the extracted text is the OCR output, not the page text.
\<close>

theorem short_text_pdf_counterexample:
  "list_all text_layer [text_page] \<and> pdf_doc one_page_pdf = Some [text_page] \<and>
   direct_text text_page = ''RBI/2025/12 Master Direction on KYC for all banks, page one.'' \<and>
   snd (processFile True earlier_state (Some one_page_pdf)) =
     [\<lparr>ocr_pass = WholeDocument, ocr_page = 1, ocr_scale = 2\<rparr>] \<and>
   extracted (fst (processFile True earlier_state (Some one_page_pdf))) = ''scan''"
  by code_simp

section \<open>The OCR of scanned documents\<close>

lemma trim_trim: "trim (trim s) = trim s"
proof (cases "trim s = []")
  case True
  have "trim [] = []" by (simp add: trim_def)
  with True show ?thesis by simp
next
  case False
  with trim_head_tail[OF False] show ?thesis by (intro trim_ends) simp_all
qed

lemma second_pass_runs:
  assumes "list_all (\<lambda>pg. \<not> page_throws ready pg) pages"
  shows "second_pass ready i pages full log =
           (Inr (full @ concat (map (\<lambda>pg. ocr_text pg @ blank_line) pages)),
            log @ map (\<lambda>j. \<lparr>ocr_pass = ScannedPass, ocr_page = j, ocr_scale = 2\<rparr>)
                    [i ..< i + length pages])"
  using assms
proof (induction pages arbitrary: i full log)
  case Nil
  then show ?case by simp
next
  case (Cons p ps)
  then have p: "page_loads p" "has_context p" "renders p" "ready" "ocr_raw p \<noteq> None"
    and ps: "list_all (\<lambda>pg. \<not> page_throws ready pg) ps"
    by (auto simp: page_throws_def)
  then obtain t where t: "ocr_raw p = Some t" by auto
  have c: "ocrCanvas ready p = Inr (ocr_text p)"
    using p t by (simp add: ocrCanvas_def ocr_text_def)
  have "i < i + length (p # ps)" by simp
  from upt_conv_Cons[OF this]
  have u: "[i ..< i + length (p # ps)] = i # [Suc i ..< Suc i + length ps]"
    by simp
  show ?case
    using p c Cons.IH[OF ps, of "Suc i"] unfolding u by simp
qed

lemma first_pass_short:
  assumes "list_all (\<lambda>pg. page_loads pg \<and> text_items pg \<noteq> None) pages"
    "list_ex (\<lambda>pg. length (direct_text pg) < 50) pages"
  shows "\<exists>full'. first_pass pages full = Inr (True, full')"
  using assms
proof (induction pages arbitrary: full)
  case Nil
  then show ?case by simp
next
  case (Cons p ps)
  then obtain xs where "page_loads p" "text_items p = Some xs"
    by auto
  then have t: "pageText_of p = Inr (direct_text p)"
    by (simp add: pageText_of_def direct_text_def)
  show ?case
  proof (cases "length (direct_text p) < 50")
    case True
    then show ?thesis using t by simp
  next
    case False
    then have "list_ex (\<lambda>pg. length (direct_text pg) < 50) ps"
      using Cons.prems(2) by simp
    from Cons.IH[OF _ this, of "full @ direct_text p @ blank_line"] Cons.prems(1) False t
    show ?thesis by simp
  qed
qed

lemma extractPdfText_scanned:
  assumes "list_all (\<lambda>pg. text_items pg \<noteq> None) pages"
    "list_all (\<lambda>pg. \<not> page_throws ready pg) pages"
    "list_ex (\<lambda>pg. length (direct_text pg) < 50) pages"
  shows "extractPdfText ready (Some pages) =
           (Inr (second_pass_text pages), scanned_calls (length pages))"
proof -
  have "list_all (\<lambda>pg. page_loads pg \<and> text_items pg \<noteq> None) pages"
    using assms(1,2) by (auto simp: list_all_iff page_throws_def)
  from first_pass_short[OF this assms(3), of "[]"]
  obtain full' where f: "first_pass pages [] = Inr (True, full')" by blast
  have s: "second_pass ready 1 pages [] [] =
      (Inr (concat (map (\<lambda>pg. ocr_text pg @ blank_line) pages)), scanned_calls (length pages))"
    using second_pass_runs[OF assms(2), of 1 "[]" "[]"] by (simp add: scanned_calls_def)
  show ?thesis
    using s by (simp add: extractPdfText_def f second_pass_text_def)
qed

lemma fallback_runs:
  assumes "readable upl" "pdf_doc upl = Some pages"
    "list_all (\<lambda>pg. \<not> page_throws ready pg) pages"
  shows "extractTextFromPdfViaOCR ready upl =
           (fallback_text pages, whole_document_calls (length pages))"
proof -
  have "ocr_loop ready 1 pages [] [] =
          (Inr (filter (\<lambda>t. t \<noteq> []) (map ocr_text pages)), whole_document_calls (length pages))"
    using ocr_loop_runs[OF assms(3), of 1 "[]" "[]"] by (simp add: whole_document_calls_def)
  then show ?thesis
    using assms(1,2) by (simp add: extractTextFromPdfViaOCR_def ocr_try_def fallback_text_def)
qed

lemma one_text_page:
  assumes "pages \<noteq> []" "\<not> list_ex (\<lambda>pg. length (direct_text pg) < 50) pages"
    "direct_chars pages < 100"
  shows "\<exists>p. pages = [p]"
proof (cases pages)
  case Nil
  then show ?thesis using assms(1) by simp
next
  case (Cons p ps)
  show ?thesis
  proof (cases ps)
    case Nil
    then show ?thesis using Cons by simp
  next
    case (Cons q qs)
    then have "50 \<le> length (direct_text p)" "50 \<le> length (direct_text q)"
      using \<open>pages = p # ps\<close> assms(2) by auto
    then have "100 \<le> direct_chars pages"
      using \<open>pages = p # ps\<close> Cons by (simp add: direct_chars_def)
    then show ?thesis using assms(3) by simp
  qed
qed

text \<open>
  Claim C2, amended. Take a PDF whose pages yield under 100 characters of direct text
  together, whose text layers can all be read, and on which no step of the OCR throws
  (every page loads, gets a canvas context and renders, the OCR engine is ready and
  recognises the page). Then the OCR is called once for every page, in page order, on a
  rendering at scale 2, and the extracted text is made of the per-page OCR outputs in page
  order, with blank lines between them, trimmed. Which loop does it depends on the text:
  when some page has under 50 characters of direct text, the second pass of
  \<open>extractPdfText\<close> calls the OCR for every page and returns every output followed by a blank
  line; when that text has under 100 characters, the whole-document fallback calls the
  OCR for every page once more, and the extracted text is its outputs that are not empty,
  joined by blank lines. When no page has under 50 characters (a single page of 50 to 99
  characters, or no page at all), only the whole-document fallback runs.
\<close>

theorem ocr_fallback_every_page:
  assumes pdf: "\<not> isWordFile upl" "ftype upl = ''application/pdf''" "readable upl"
      "pdf_doc upl = Some pages"
    and layers: "list_all (\<lambda>pg. text_items pg \<noteq> None) pages"
    and little: "direct_chars pages < 100"
    and sound: "list_all (\<lambda>pg. \<not> page_throws ready pg) pages"
  shows "\<exists>st' log. processFile ready st0 (Some upl) = (st', log) \<and> error st' = [] \<and>
           (if list_ex (\<lambda>pg. length (direct_text pg) < 50) pages then
              (if length (second_pass_text pages) < 100 then
                 log = scanned_calls (length pages) @ whole_document_calls (length pages) \<and>
                 extracted st' = fallback_text pages
               else
                 log = scanned_calls (length pages) \<and> extracted st' = second_pass_text pages)
            else
              log = whole_document_calls (length pages) \<and> extracted st' = fallback_text pages)"
proof (cases "list_ex (\<lambda>pg. length (direct_text pg) < 50) pages")
  case True
  have x: "extractPdfText ready (pdf_doc upl) =
             (Inr (second_pass_text pages), scanned_calls (length pages))"
    using extractPdfText_scanned[OF layers sound True] pdf(4) by simp
  have tt: "trim (second_pass_text pages) = second_pass_text pages"
    by (simp add: second_pass_text_def trim_trim)
  show ?thesis
  proof (cases "length (second_pass_text pages) < 100")
    case short: True
    then have "length (trim (second_pass_text pages)) < 100" by (simp add: tt)
    from processFile_pdf_fallback[OF pdf(1-3) x this fallback_runs[OF pdf(3,4) sound]]
    have "extract_text ready upl =
            (Inr (fallback_text pages),
             scanned_calls (length pages) @ whole_document_calls (length pages))" .
    from processFile_done[OF this, of st0] True short show ?thesis by simp
  next
    case False
    then have "\<not> length (trim (second_pass_text pages)) < 100" by (simp add: tt)
    then have "extract_text ready upl =
            (Inr (second_pass_text pages), scanned_calls (length pages))"
      using pdf x by (simp add: extract_text_def)
    from processFile_done[OF this, of st0] True False show ?thesis by simp
  qed
next
  case False
  have "\<exists>t. extractPdfText ready (pdf_doc upl) = (Inr t, []) \<and> length (trim t) < 100"
  proof (cases "pages = []")
    case True
    then show ?thesis using pdf(4) by (simp add: extractPdfText_def trim_def)
  next
    case ne: False
    from one_text_page[OF ne False little] obtain p where p: "pages = [p]" by blast
    have l: "list_all text_layer pages"
      using layers sound False unfolding p by (simp add: text_layer_def page_throws_def)
    have "length (trim (join blank_line (map direct_text pages))) < 100"
      using joined_text_trimmed[OF ne l] little unfolding p by (simp add: direct_chars_def)
    then show ?thesis
      using extractPdfText_direct[OF ne l, of ready] pdf(4) by simp
  qed
  then obtain t where x: "extractPdfText ready (pdf_doc upl) = (Inr t, [])"
    and t: "length (trim t) < 100" by blast
  from processFile_pdf_fallback[OF pdf(1-3) x t fallback_runs[OF pdf(3,4) sound]]
  have "extract_text ready upl = (Inr (fallback_text pages), whole_document_calls (length pages))"
    by simp
  from processFile_done[OF this, of st0] False show ?thesis by simp
qed

theorem ocr_fallback_every_page_witness:
  "onFileChange_pending True three_page_scan \<and>
   \<not> isWordFile three_page_scan \<and> readable three_page_scan \<and>
   pdf_doc three_page_scan = Some three_pages \<and> length three_pages = 3 \<and>
   direct_chars three_pages = 0 \<and>
   list_all (\<lambda>pg. \<not> page_throws True pg) three_pages \<and>
   map ocr_text three_pages = [''RBI circular'', ''page two'', ''page three''] \<and>
   (\<exists>st'. processFile True uploaded_state (Some three_page_scan) =
            (st', [\<lparr>ocr_pass = ScannedPass, ocr_page = 1, ocr_scale = 2\<rparr>,
                   \<lparr>ocr_pass = ScannedPass, ocr_page = 2, ocr_scale = 2\<rparr>,
                   \<lparr>ocr_pass = ScannedPass, ocr_page = 3, ocr_scale = 2\<rparr>,
                   \<lparr>ocr_pass = WholeDocument, ocr_page = 1, ocr_scale = 2\<rparr>,
                   \<lparr>ocr_pass = WholeDocument, ocr_page = 2, ocr_scale = 2\<rparr>,
                   \<lparr>ocr_pass = WholeDocument, ocr_page = 3, ocr_scale = 2\<rparr>]) \<and>
          extracted st' = ''RBI circular'' @ blank_line @ ''page two'' @ blank_line @ ''page three'' \<and>
          error st' = []) \<and>
   onFileChange_pending True long_scan \<and>
   direct_chars (pdf_pages long_scan) = 0 \<and> length (pdf_pages long_scan) = 3 \<and>
   length (second_pass_text (pdf_pages long_scan)) = 124 \<and>
   (\<exists>st'. processFile True uploaded_state (Some long_scan) =
            (st', [\<lparr>ocr_pass = ScannedPass, ocr_page = 1, ocr_scale = 2\<rparr>,
                   \<lparr>ocr_pass = ScannedPass, ocr_page = 2, ocr_scale = 2\<rparr>,
                   \<lparr>ocr_pass = ScannedPass, ocr_page = 3, ocr_scale = 2\<rparr>]) \<and>
          extracted st' = second_pass_text (pdf_pages long_scan) \<and> error st' = [])"
proof -
  have 1: "\<not> isWordFile three_page_scan" "ftype three_page_scan = ''application/pdf''"
    "readable three_page_scan" "pdf_doc three_page_scan = Some three_pages"
    by code_simp+
  have 2: "list_all (\<lambda>pg. text_items pg \<noteq> None) three_pages"
    by code_simp
  have 3: "direct_chars three_pages = 0" "length three_pages = 3"
    by code_simp+
  have 4: "list_all (\<lambda>pg. \<not> page_throws True pg) three_pages"
    by code_simp
  have 5: "map ocr_text three_pages = [''RBI circular'', ''page two'', ''page three'']"
    by code_simp
  have 6: "list_ex (\<lambda>pg. length (direct_text pg) < 50) three_pages"
    "length (second_pass_text three_pages) < 100"
    by code_simp+
  have 7: "fallback_text three_pages =
      ''RBI circular'' @ blank_line @ ''page two'' @ blank_line @ ''page three''"
    by code_simp
  have 8: "scanned_calls 3 @ whole_document_calls 3 =
      [\<lparr>ocr_pass = ScannedPass, ocr_page = 1, ocr_scale = 2\<rparr>,
       \<lparr>ocr_pass = ScannedPass, ocr_page = 2, ocr_scale = 2\<rparr>,
       \<lparr>ocr_pass = ScannedPass, ocr_page = 3, ocr_scale = 2\<rparr>,
       \<lparr>ocr_pass = WholeDocument, ocr_page = 1, ocr_scale = 2\<rparr>,
       \<lparr>ocr_pass = WholeDocument, ocr_page = 2, ocr_scale = 2\<rparr>,
       \<lparr>ocr_pass = WholeDocument, ocr_page = 3, ocr_scale = 2\<rparr>]"
    by (simp add: scanned_calls_def whole_document_calls_def upt_rec)
  have 9: "onFileChange_pending True three_page_scan"
    by code_simp
  have "\<exists>st'. processFile True uploaded_state (Some three_page_scan) =
            (st', scanned_calls 3 @ whole_document_calls 3) \<and>
          extracted st' = fallback_text three_pages \<and> error st' = []"
    using ocr_fallback_every_page[OF 1 2 _ 4, of uploaded_state] 3 6 by auto
  then have a: "\<exists>st'. processFile True uploaded_state (Some three_page_scan) =
            (st', [\<lparr>ocr_pass = ScannedPass, ocr_page = 1, ocr_scale = 2\<rparr>,
                   \<lparr>ocr_pass = ScannedPass, ocr_page = 2, ocr_scale = 2\<rparr>,
                   \<lparr>ocr_pass = ScannedPass, ocr_page = 3, ocr_scale = 2\<rparr>,
                   \<lparr>ocr_pass = WholeDocument, ocr_page = 1, ocr_scale = 2\<rparr>,
                   \<lparr>ocr_pass = WholeDocument, ocr_page = 2, ocr_scale = 2\<rparr>,
                   \<lparr>ocr_pass = WholeDocument, ocr_page = 3, ocr_scale = 2\<rparr>]) \<and>
          extracted st' = ''RBI circular'' @ blank_line @ ''page two'' @ blank_line @ ''page three'' \<and>
          error st' = []"
    by (simp only: 7 8)
  have l1: "\<not> isWordFile long_scan" "ftype long_scan = ''application/pdf''"
    "readable long_scan" "pdf_doc long_scan = Some (pdf_pages long_scan)"
    by code_simp+
  have l2: "list_all (\<lambda>pg. text_items pg \<noteq> None) (pdf_pages long_scan)"
    by code_simp
  have l3: "direct_chars (pdf_pages long_scan) = 0" "length (pdf_pages long_scan) = 3"
    by code_simp+
  have l4: "list_all (\<lambda>pg. \<not> page_throws True pg) (pdf_pages long_scan)"
    by code_simp
  have l5: "length (second_pass_text (pdf_pages long_scan)) = 124"
    by code_simp
  have l6: "list_ex (\<lambda>pg. length (direct_text pg) < 50) (pdf_pages long_scan)"
    by code_simp
  have l8: "scanned_calls 3 =
      [\<lparr>ocr_pass = ScannedPass, ocr_page = 1, ocr_scale = 2\<rparr>,
       \<lparr>ocr_pass = ScannedPass, ocr_page = 2, ocr_scale = 2\<rparr>,
       \<lparr>ocr_pass = ScannedPass, ocr_page = 3, ocr_scale = 2\<rparr>]"
    by (simp add: scanned_calls_def upt_rec)
  have "\<exists>st'. processFile True uploaded_state (Some long_scan) = (st', scanned_calls 3) \<and>
          extracted st' = second_pass_text (pdf_pages long_scan) \<and> error st' = []"
    using ocr_fallback_every_page[OF l1 l2 _ l4, of uploaded_state] l3 l5 l6 by auto
  then have b: "\<exists>st'. processFile True uploaded_state (Some long_scan) =
            (st', [\<lparr>ocr_pass = ScannedPass, ocr_page = 1, ocr_scale = 2\<rparr>,
                   \<lparr>ocr_pass = ScannedPass, ocr_page = 2, ocr_scale = 2\<rparr>,
                   \<lparr>ocr_pass = ScannedPass, ocr_page = 3, ocr_scale = 2\<rparr>]) \<and>
          extracted st' = second_pass_text (pdf_pages long_scan) \<and> error st' = []"
    by (simp only: l8)
  have l9: "onFileChange_pending True long_scan"
    by code_simp
  from a b 1 3 4 5 9 l3 l5 l9 show ?thesis by (intro conjI) assumption+
qed

text \<open>
  Claim C2 as it is stated, for every PDF with under 100 characters of direct text, fails
  where a step of the OCR does not go through. A scanned PDF of two pages, the second of
  which gets no canvas context, is taken for a circular by \<open>onFileChange\<close>, because the
  second pass of \<open>extractPdfText\<close> skips the page; then the whole-document fallback throws
  at that page, and the extracted text is empty, though the OCR reads \<open>RBI circular\<close> on
  page 1. The OCR is never called for page 2, and no error is set.
\<close>

theorem ocr_fallback_stops_counterexample:
  "onFileChange_pending True scanned_pdf \<and>
   pdf_doc scanned_pdf = Some [scanned_page, scanned_page\<lparr>has_context := False\<rparr>] \<and>
   direct_chars [scanned_page, scanned_page\<lparr>has_context := False\<rparr>] = 0 \<and>
   ocr_text scanned_page = ''RBI circular'' \<and>
   extractPdfText True (pdf_doc scanned_pdf) =
     (Inr ''RBI circular'', [\<lparr>ocr_pass = ScannedPass, ocr_page = 1, ocr_scale = 2\<rparr>]) \<and>
   snd (processFile True uploaded_state (Some scanned_pdf)) =
     [\<lparr>ocr_pass = ScannedPass, ocr_page = 1, ocr_scale = 2\<rparr>,
      \<lparr>ocr_pass = WholeDocument, ocr_page = 1, ocr_scale = 2\<rparr>] \<and>
   extracted (fst (processFile True uploaded_state (Some scanned_pdf))) = [] \<and>
   error (fst (processFile True uploaded_state (Some scanned_pdf))) = []"
  by code_simp

section \<open>Errors of the two stages\<close>






end
